theory Spec2Isabelle
  imports Complex_Main "HOL-Library.Sublist" "HOL-Library.AList"
begin

section \<open>Strings, paths and character classes\<close>

text \<open>
  Text is a list of characters, each a UTF-16 code unit below 256. JavaScript's
  \<^verbatim>\<open>s.includes(t)\<close>, \<^verbatim>\<open>s.startsWith(t)\<close> and \<^verbatim>\<open>s.endsWith(t)\<close> are the
  library's \<^const>\<open>sublist\<close>, \<^const>\<open>prefix\<close> and \<^const>\<open>suffix\<close> with the
  arguments swapped. Of the regular-expression classes, \<^verbatim>\<open>\d\<close> is an ASCII digit and
  \<^verbatim>\<open>\w\<close> an ASCII letter, a digit or the underscore; \<^verbatim>\<open>\s\<close> is tab, line feed,
  vertical tab, form feed, carriage return, space or the no-break space (code 160):
  the white space and the line terminators below 256, which \<^verbatim>\<open>s.trim()\<close> strips
  too.
\<close>

definition strIncludes :: "string \<Rightarrow> string \<Rightarrow> bool" where
  "strIncludes s t = sublist t s"


definition endsWith :: "string \<Rightarrow> string \<Rightarrow> bool" where
  "endsWith s t = suffix t s"

definition isDigit :: "char \<Rightarrow> bool" where
  "isDigit c = (let n = of_char c :: nat in 48 \<le> n \<and> n \<le> 57)"

definition isWord :: "char \<Rightarrow> bool" where
  "isWord c = (let n = of_char c :: nat in
     (48 \<le> n \<and> n \<le> 57) \<or> (65 \<le> n \<and> n \<le> 90) \<or> (97 \<le> n \<and> n \<le> 122) \<or> n = 95)"

definition isSpace :: "char \<Rightarrow> bool" where
  "isSpace c = (let n = of_char c :: nat in (9 \<le> n \<and> n \<le> 13) \<or> n = 32 \<or> n = 160)"

definition isQuote :: "char \<Rightarrow> bool" where
  "isQuote c = (c = CHR 0x27 \<or> c = CHR 0x22)"

definition fence :: string where
  "fence = [CHR 0x60, CHR 0x60, CHR 0x60]"

text \<open>
  \<^verbatim>\<open>path.basename(p)\<close> (POSIX): trailing slashes are dropped, then the part after the
  last slash is returned.
\<close>

definition stripSlashes :: "string \<Rightarrow> string" where
  "stripSlashes p = rev (dropWhile (\<lambda>c. c = CHR ''/'') (rev p))"

definition basename :: "string \<Rightarrow> string" where
  "basename p = rev (takeWhile (\<lambda>c. c \<noteq> CHR ''/'') (rev (stripSlashes p)))"

text \<open>
  \<^verbatim>\<open>path.extname(p)\<close>: from the last dot of the base name to its end; empty when the
  base name has no dot, when its last dot is its first character, or when it is
  \<^verbatim>\<open>..\<close>.
\<close>

definition extname :: "string \<Rightarrow> string" where
  "extname p =
     (let b = basename p;
          e = rev (takeWhile (\<lambda>c. c \<noteq> CHR ''.'') (rev b))
      in if CHR ''.'' \<notin> set b then []
         else if length e + 1 = length b then []
         else if b = ''..'' then []
         else CHR ''.'' # e)"

text \<open>
  \<^verbatim>\<open>path.basename(f, path.extname(f))\<close>: the base name without its extension. The
  extension is a proper suffix of the base name whenever it is not empty, so the suffix
  is always removed.
\<close>

definition basenameNoExt :: "string \<Rightarrow> string" where
  "basenameNoExt f = (let b = basename f in take (length b - length (extname f)) b)"

section \<open>Scanning with a global regular expression\<close>

text \<open>
  A loop \<^verbatim>\<open>while ((m = re.exec(text)) !== null)\<close> over a pattern with the \<^verbatim>\<open>g\<close>
  flag tries the pattern at each position from \<^verbatim>\<open>lastIndex\<close> on, and after a match
  continues behind it. The matcher \<open>m\<close> is given the text from the current position
  and returns what the loop body reads from the match together with the number of
  characters matched (never zero for the patterns of this program). The counter is the
  number of characters still to skip.
\<close>

fun scanAll :: "(string \<Rightarrow> ('a \<times> nat) option) \<Rightarrow> nat \<Rightarrow> string \<Rightarrow> 'a list" where
  "scanAll m k [] = []"
| "scanAll m (Suc k) (c # cs) = scanAll m k cs"
| "scanAll m 0 (c # cs) =
     (case m (c # cs) of
        Some (x, n) \<Rightarrow> x # scanAll m (n - 1) cs
      | None \<Rightarrow> scanAll m 0 cs)"

text \<open>The text before the first occurrence of \<open>t\<close>, when there is one.\<close>

fun beforeFirst :: "string \<Rightarrow> string \<Rightarrow> string option" where
  "beforeFirst t [] = (if t = [] then Some [] else None)"
| "beforeFirst t (c # cs) =
     (if prefix t (c # cs) then Some []
      else map_option ((#) c) (beforeFirst t cs))"

section \<open>Reference Extractor (add-code-pointers: extractCodeReferences)\<close>

datatype ref_type = Import | Class | Function

record reference =
  ref_type :: ref_type
  ref_value :: string

text \<open>
  \<^verbatim>\<open>/```[\w]*\n([\s\S]*?)```/g\<close>: an opening fence, word characters, a line feed, then
  the shortest text up to the next fence. The loop body reads group 1, the block's text.
\<close>

definition codeBlockPattern :: "string \<Rightarrow> (string \<times> nat) option" where
  "codeBlockPattern s =
     (if prefix fence s then
        (let r = drop 3 s; w = takeWhile isWord r in
         case dropWhile isWord r of
           [] \<Rightarrow> None
         | c # bodyRest \<Rightarrow>
             if c = CHR 0x0A then
               (case beforeFirst fence bodyRest of
                  None \<Rightarrow> None
                | Some body \<Rightarrow> Some (body, 3 + length w + 1 + length body + 3))
             else None)
      else None)"

text \<open>
  A keyword, \<^verbatim>\<open>\s+\<close>, then \<^verbatim>\<open>(\w+)\<close>: the shape of
  \<^verbatim>\<open>/class\s+(\w+)/g\<close> and of each alternative of
  \<^verbatim>\<open>/(?:function|def|fn)\s+(\w+)/g\<close>.
\<close>

definition keywordName :: "string \<Rightarrow> string \<Rightarrow> (string \<times> nat) option" where
  "keywordName kw s =
     (if prefix kw s then
        (let r = drop (length kw) s;
             ws = takeWhile isSpace r;
             name = takeWhile isWord (dropWhile isSpace r)
         in if ws \<noteq> [] \<and> name \<noteq> [] then Some (name, length kw + length ws + length name)
            else None)
      else None)"

text \<open>
  A keyword, \<^verbatim>\<open>\s+\<close>, a quote, \<^verbatim>\<open>([^'"]+)\<close>, a quote: each alternative of
  \<^verbatim>\<open>/(?:from|import|require)\s+['"]([^'"]+)['"]/g\<close>.
\<close>

definition keywordQuoted :: "string \<Rightarrow> string \<Rightarrow> (string \<times> nat) option" where
  "keywordQuoted kw s =
     (if prefix kw s then
        (let r = drop (length kw) s; ws = takeWhile isSpace r in
         case dropWhile isSpace r of
           [] \<Rightarrow> None
         | q # r3 \<Rightarrow>
             (let v = takeWhile (\<lambda>c. \<not> isQuote c) r3 in
              case dropWhile (\<lambda>c. \<not> isQuote c) r3 of
                [] \<Rightarrow> None
              | q' # r4 \<Rightarrow>
                  if ws \<noteq> [] \<and> isQuote q \<and> v \<noteq> []
                  then Some (v, length kw + length ws + 1 + length v + 1)
                  else None))
      else None)"

text \<open>An alternation tries its branches in order and takes the first that matches.\<close>

fun firstOf :: "(string \<Rightarrow> 'a option) list \<Rightarrow> string \<Rightarrow> 'a option" where
  "firstOf [] s = None"
| "firstOf (p # ps) s = (case p s of Some x \<Rightarrow> Some x | None \<Rightarrow> firstOf ps s)"

definition filePathPattern :: "string \<Rightarrow> (string \<times> nat) option" where
  "filePathPattern = firstOf [keywordQuoted ''from'', keywordQuoted ''import'', keywordQuoted ''require'']"

definition classPattern :: "string \<Rightarrow> (string \<times> nat) option" where
  "classPattern = keywordName ''class''"

definition functionPattern :: "string \<Rightarrow> (string \<times> nat) option" where
  "functionPattern = firstOf [keywordName ''function'', keywordName ''def'', keywordName ''fn'']"

text \<open>
  The three inner loops of one code block, in the source's order: all import paths,
  then all class names, then all function names. Each \<^verbatim>\<open>references.push\<close> appends.
\<close>

definition blockReferences :: "string \<Rightarrow> reference list" where
  "blockReferences codeBlock =
     map (\<lambda>v. \<lparr>ref_type = Import, ref_value = v\<rparr>) (scanAll filePathPattern 0 codeBlock)
     @ map (\<lambda>v. \<lparr>ref_type = Class, ref_value = v\<rparr>) (scanAll classPattern 0 codeBlock)
     @ map (\<lambda>v. \<lparr>ref_type = Function, ref_value = v\<rparr>) (scanAll functionPattern 0 codeBlock)"

definition extractCodeReferences :: "string \<Rightarrow> reference list" where
  "extractCodeReferences content =
     concat (map blockReferences (scanAll codeBlockPattern 0 content))"

section \<open>Source Resolver (add-code-pointers: matchReferencesToFiles)\<close>

record pointer =
  p_file :: string
  p_reason :: string

text \<open>
  \<^verbatim>\<open>re.test(text)\<close> for a pattern without the \<^verbatim>\<open>g\<close> flag: the pattern matches at
  some position of the text.
\<close>

fun regexTest :: "(string \<Rightarrow> 'a option) \<Rightarrow> string \<Rightarrow> bool" where
  "regexTest m [] = (m [] \<noteq> None)"
| "regexTest m (c # cs) = (m (c # cs) \<noteq> None \<or> regexTest m cs)"

text \<open>
  One alternative of \<^verbatim>\<open>new RegExp(`(?:class|function|def|fn)\\s+${ref.value}\\b`)\<close>:
  the keyword, \<^verbatim>\<open>\s+\<close>, the reference's value read literally (the extractor only
  captures \<^verbatim>\<open>\w+\<close>), and a word boundary: exactly one of the characters before and
  after the position is a word character.
\<close>

definition keywordLiteral :: "string \<Rightarrow> string \<Rightarrow> string \<Rightarrow> unit option" where
  "keywordLiteral kw name s =
     (if prefix kw s then
        (let r = drop (length kw) s;
             ws = takeWhile isSpace r;
             r2 = dropWhile isSpace r;
             wordBefore = (name \<noteq> [] \<and> isWord (last name));
             wordAfter = (case drop (length name) r2 of [] \<Rightarrow> False | c # _ \<Rightarrow> isWord c)
         in if ws \<noteq> [] \<and> prefix name r2 \<and> wordBefore \<noteq> wordAfter then Some () else None)
      else None)"

definition definitionPattern :: "string \<Rightarrow> string \<Rightarrow> unit option" where
  "definitionPattern name =
     firstOf [keywordLiteral ''class'' name, keywordLiteral ''function'' name,
              keywordLiteral ''def'' name, keywordLiteral ''fn'' name]"

fun typeName :: "ref_type \<Rightarrow> string" where
  "typeName Import = ''import''"
| "typeName Class = ''class''"
| "typeName Function = ''function''"

text \<open>
  \<open>readFile\<close> is \<^verbatim>\<open>fs.readFileSync(file, 'utf-8')\<close>: \<open>None\<close> when the read throws,
  which the \<^verbatim>\<open>try\<close> around it turns into skipping the file.
\<close>

definition isCandidate :: "string \<Rightarrow> string \<Rightarrow> bool" where
  "isCandidate v f = (strIncludes f v \<or> basenameNoExt f = basename v)"

definition referencePointers :: "(string \<Rightarrow> string option) \<Rightarrow> string list \<Rightarrow> reference \<Rightarrow> pointer list" where
  "referencePointers readFile sourceFiles r =
     (case ref_type r of
        Import \<Rightarrow>
          map (\<lambda>f. \<lparr>p_file = f, p_reason = ''imports '' @ ref_value r\<rparr>)
            (filter (isCandidate (ref_value r)) sourceFiles)
      | _ \<Rightarrow>
          concat (map (\<lambda>f.
            case readFile f of
              None \<Rightarrow> []
            | Some content \<Rightarrow>
                if regexTest (definitionPattern (ref_value r)) content
                then [\<lparr>p_file = f,
                       p_reason = ''defines '' @ typeName (ref_type r) @ '' '' @ ref_value r\<rparr>]
                else []) sourceFiles))"

definition matchReferencesToFiles ::
  "(string \<Rightarrow> string option) \<Rightarrow> reference list \<Rightarrow> string list \<Rightarrow> pointer list" where
  "matchReferencesToFiles readFile references sourceFiles =
     concat (map (referencePointers readFile sourceFiles) references)"

section \<open>Pointer generator (add-code-pointers: generateCodePointers)\<close>

text \<open>
  JSON values of the kinds the generator writes: strings, numbers, arrays and objects,
  an object being its entries in the order of \<^verbatim>\<open>Object.entries\<close>.
\<close>

datatype json = JStr string | JNum int | JArr "json list" | JObj "(string \<times> json) list"

text \<open>
  The \<^verbatim>\<open>reduce\<close> that groups a document's pointers: an object whose keys are the
  source files in the order they are first seen, each with its reasons, a reason being
  added only when the list does not hold it yet.
\<close>

definition addPointer :: "(string \<times> string list) list \<Rightarrow> pointer \<Rightarrow> (string \<times> string list) list" where
  "addPointer acc p =
     (let rs = (case map_of acc (p_file p) of None \<Rightarrow> [] | Some rs \<Rightarrow> rs)
      in AList.update (p_file p) (if p_reason p \<in> set rs then rs else rs @ [p_reason p]) acc)"

definition groupPointers :: "pointer list \<Rightarrow> (string \<times> string list) list" where
  "groupPointers ps = foldl addPointer [] ps"

text \<open>
  \<open>findSourceFiles\<close>: the tracked files with a source extension, or, when there are
  none, the files of the directory walk (given as \<open>walked\<close>) with a source extension.
\<close>

definition sourceExtensions :: "string list" where
  "sourceExtensions = [''.js'', ''.ts'', ''.jsx'', ''.tsx'', ''.py'', ''.go'', ''.rs'', ''.java'', ''.rb'', ''.php'']"

definition hasSourceExtension :: "string \<Rightarrow> bool" where
  "hasSourceExtension f = list_ex (endsWith f) sourceExtensions"

definition findSourceFiles :: "string list \<Rightarrow> string list \<Rightarrow> string list" where
  "findSourceFiles gitLsFiles walked =
     (let gitFiles = filter (\<lambda>f. f \<noteq> [] \<and> hasSourceExtension f) gitLsFiles
      in if length gitFiles > 0 then gitFiles else filter hasSourceExtension walked)"

datatype gen_error = ContextDirMissing | DocUnreadable string

text \<open>
  The loop over the documents. \<open>readDoc\<close> reads a document of the context directory;
  a read that throws ends the program without writing the file. A document gets a key
  in \<open>mappings\<close> only when it has a pointer.
\<close>

fun docMappings ::
  "(string \<Rightarrow> string option) \<Rightarrow> (string \<Rightarrow> string option) \<Rightarrow> string list \<Rightarrow>
   (string \<times> (string \<times> string list) list) list \<Rightarrow> string list \<Rightarrow>
   gen_error + (string \<times> (string \<times> string list) list) list" where
  "docMappings readDoc readFile sourceFiles mappings [] = Inr mappings"
| "docMappings readDoc readFile sourceFiles mappings (docFile # docFiles) =
     (case readDoc docFile of
        None \<Rightarrow> Inl (DocUnreadable docFile)
      | Some content \<Rightarrow>
          (let references = extractCodeReferences content;
               pointers = matchReferencesToFiles readFile references sourceFiles
           in docMappings readDoc readFile sourceFiles
                (if length pointers > 0
                 then AList.update docFile (groupPointers pointers) mappings
                 else mappings)
                docFiles))"

definition mappingsJson :: "(string \<times> (string \<times> string list) list) list \<Rightarrow> json" where
  "mappingsJson mappings =
     JObj (map (\<lambda>(docFile, m). (docFile, JObj (map (\<lambda>(f, rs). (f, JArr (map JStr rs))) m))) mappings)"

text \<open>
  \<open>contextDir\<close> is the listing of \<^verbatim>\<open>context_for_llms\<close> (\<open>None\<close> when the directory
  does not exist), \<open>now\<close> the time stamp. The result is the value written, as JSON, to
  \<^verbatim>\<open>CODE_POINTERS.json\<close>.
\<close>

definition generateCodePointers ::
  "string \<Rightarrow> string list option \<Rightarrow> (string \<Rightarrow> string option) \<Rightarrow> string list \<Rightarrow>
   (string \<Rightarrow> string option) \<Rightarrow> gen_error + json" where
  "generateCodePointers now contextDir readDoc sourceFiles readFile =
     (case contextDir of
        None \<Rightarrow> Inl ContextDirMissing
      | Some names \<Rightarrow>
          (let docFiles = filter (\<lambda>f. endsWith f ''.md'') names in
           case docMappings readDoc readFile sourceFiles [] docFiles of
             Inl e \<Rightarrow> Inl e
           | Inr mappings \<Rightarrow>
               Inr (JObj [(''generated'', JStr now),
                          (''total_source_files'', JNum (int (length sourceFiles))),
                          (''total_mappings'', JNum (int (length mappings))),
                          (''mappings'', mappingsJson mappings)])))"

section \<open>CODE_POINTERS.json as its consumers read it\<close>

text \<open>
  The coverage analysis, the change tracker, the validator and the document-state
  analysis all iterate \<^verbatim>\<open>Object.entries\<close> of the parsed file and read two
  properties of each value: \<^verbatim>\<open>value.files\<close>, an array of paths, and
  \<^verbatim>\<open>value.lastValidated\<close>, a date string. A property that is absent (or falsy) is
  \<open>None\<close>.
\<close>

record pointer_entry =
  pe_files :: "string list option"
  pe_lastValidated :: "string option"

fun jsonStrings :: "json list \<Rightarrow> string list option" where
  "jsonStrings [] = Some []"
| "jsonStrings (JStr s # js) = map_option ((#) s) (jsonStrings js)"
| "jsonStrings (_ # js) = None"

text \<open>
  Reading the two properties off a parsed JSON value. A string, a number and an array
  have neither property; an object has the ones among its keys. The result is \<open>None\<close>
  when a property is there with a value the consumers are not written for (a
  \<open>files\<close> that is not an array of strings, a \<open>lastValidated\<close> that is not a string).
\<close>

definition readFilesProperty :: "(string \<times> json) list \<Rightarrow> string list option option" where
  "readFilesProperty kvs =
     (case map_of kvs ''files'' of
        None \<Rightarrow> Some None
      | Some (JArr js) \<Rightarrow> map_option Some (jsonStrings js)
      | Some (JStr s) \<Rightarrow> if s = [] then Some None else None
      | Some (JNum n) \<Rightarrow> if n = 0 then Some None else None
      | Some (JObj _) \<Rightarrow> None)"

definition readLastValidatedProperty :: "(string \<times> json) list \<Rightarrow> string option option" where
  "readLastValidatedProperty kvs =
     (case map_of kvs ''lastValidated'' of
        None \<Rightarrow> Some None
      | Some (JStr s) \<Rightarrow> Some (Some s)
      | Some _ \<Rightarrow> None)"

fun readPointerEntry :: "json \<Rightarrow> pointer_entry option" where
  "readPointerEntry (JObj kvs) =
     (case (readFilesProperty kvs, readLastValidatedProperty kvs) of
        (Some fs, Some lv) \<Rightarrow> Some \<lparr>pe_files = fs, pe_lastValidated = lv\<rparr>
      | _ \<Rightarrow> None)"
| "readPointerEntry _ = Some \<lparr>pe_files = None, pe_lastValidated = None\<rparr>"

fun readEntries :: "(string \<times> json) list \<Rightarrow> (string \<times> pointer_entry) list option" where
  "readEntries [] = Some []"
| "readEntries ((k, v) # kvs) =
     (case readPointerEntry v of
        None \<Rightarrow> None
      | Some e \<Rightarrow> map_option ((#) (k, e)) (readEntries kvs))"

text \<open>\<^verbatim>\<open>Object.entries(codePointers)\<close> for the parsed file.\<close>

fun readCodePointers :: "json \<Rightarrow> (string \<times> pointer_entry) list option" where
  "readCodePointers (JObj kvs) = readEntries kvs"
| "readCodePointers _ = Some []"

section \<open>Staleness Estimator (analyze-doc-state)\<close>

text \<open>
  Times are milliseconds since the epoch. \<open>getFileModTime\<close> returns the string that
  \<^verbatim>\<open>Date.prototype.toISOString\<close> gives for a file's modification time, or null when
  the file cannot be read. \<^verbatim>\<open>new Date(s)\<close> of such a string is the time again, so
  the model carries the time, and forms the string only where the script compares two of
  them as strings; the runtime's \<open>toISOString\<close> is a parameter there. For a year
  from 0000 to 9999 the string is \<^verbatim>\<open>YYYY-MM-DDTHH:mm:ss.sssZ\<close>, and those strings order as
  their times do; a later year is written \<^verbatim>\<open>+YYYYYY\<close> and an earlier one
  \<^verbatim>\<open>-YYYYYY\<close>, and those strings sort below every four-digit one.
  \<open>new Date(null)\<close> is the epoch.
\<close>

definition msPerDay :: int where
  "msPerDay = 1000 * 60 * 60 * 24"



datatype risk = RiskNone | RiskLow | RiskMedium | RiskHigh | RiskCritical






datatype doc_status = Current | Stale

record doc_state =
  ds_status :: doc_status
  ds_lastUpdated :: "int option"
  ds_linkedFiles :: "string list"
  ds_lastCodeChange :: "int option"
  ds_validationNeeded :: bool
  ds_staleRisk :: risk


section \<open>Shared helpers of the report writers\<close>

text \<open>
  A JavaScript \<^verbatim>\<open>Set\<close> keeps each value once, in the order of first insertion;
  \<open>setAdd\<close> is \<^verbatim>\<open>set.add(x)\<close> and \<open>setOf\<close> builds the set from a list.
\<close>

definition setAdd :: "'a list \<Rightarrow> 'a \<Rightarrow> 'a list" where
  "setAdd xs x = (if x \<in> set xs then xs else xs @ [x])"

definition setOf :: "'a list \<Rightarrow> 'a list" where
  "setOf xs = foldl setAdd [] xs"

text \<open>
  \<^verbatim>\<open>s.split(sep)\<close> for a one-character separator: the pieces between the separators,
  always at least one.
\<close>

fun splitOn :: "char \<Rightarrow> string \<Rightarrow> string list" where
  "splitOn sep [] = [[]]"
| "splitOn sep (c # cs) =
     (if c = sep then [] # splitOn sep cs
      else (case splitOn sep cs of p # ps \<Rightarrow> (c # p) # ps | [] \<Rightarrow> [[c]]))"

text \<open>
  \<^verbatim>\<open>array.sort(cmp)\<close> is stable: \<open>x\<close> goes in front of the first element it does
  not compare greater than, and the elements are inserted from the last to the first.
\<close>

fun insertBy :: "('a \<Rightarrow> 'a \<Rightarrow> int) \<Rightarrow> 'a \<Rightarrow> 'a list \<Rightarrow> 'a list" where
  "insertBy cmp x [] = [x]"
| "insertBy cmp x (y # ys) = (if cmp x y \<le> 0 then x # y # ys else y # insertBy cmp x ys)"

definition sortBy :: "('a \<Rightarrow> 'a \<Rightarrow> int) \<Rightarrow> 'a list \<Rightarrow> 'a list" where
  "sortBy cmp xs = foldr (insertBy cmp) xs []"

definition isLineTerminator :: "char \<Rightarrow> bool" where
  "isLineTerminator c = (c = CHR 0x0A \<or> c = CHR 0x0D)"

section \<open>Change History Tracker (track-code-changes)\<close>

record commit =
  c_hash :: string
  c_timestamp :: int
  c_message :: string

datatype change_type = Added | Modified | Deleted

datatype impact = High | Medium | Low | Unknown

record change_impact =
  changeType :: change_type
  linesAdded :: nat
  linesRemoved :: nat
  totalLines :: nat
  impact :: impact
  hasBreakingChange :: "bool option"

text \<open>
  \<^verbatim>\<open>(diff.match(/^\+[^+]/gm) || []).length\<close> and the same for \<^verbatim>\<open>-\<close>: the number of
  matches of the marker at the start of a line followed by a character that is not the
  marker. \<open>atStart\<close> says that the position is the start of a line.
\<close>

fun countMarked :: "char \<Rightarrow> bool \<Rightarrow> string \<Rightarrow> nat" where
  "countMarked mk atStart (c # d # cs) =
     (if atStart \<and> c = mk \<and> d \<noteq> mk then Suc (countMarked mk (isLineTerminator d) cs)
      else countMarked mk (isLineTerminator c) (d # cs))"
| "countMarked mk atStart cs = 0"

text \<open>
  \<^verbatim>\<open>/export|function.*\(|class\s+\w+|interface\s+\w+/\<close>: the dot does not cross a line
  terminator.
\<close>

definition literalPattern :: "string \<Rightarrow> string \<Rightarrow> unit option" where
  "literalPattern kw s = (if prefix kw s then Some () else None)"

definition functionCallPattern :: "string \<Rightarrow> unit option" where
  "functionCallPattern s =
     (if prefix ''function'' s \<and>
         CHR ''('' \<in> set (takeWhile (\<lambda>c. \<not> isLineTerminator c) (drop 8 s))
      then Some () else None)"

definition breakingPattern :: "string \<Rightarrow> unit option" where
  "breakingPattern =
     firstOf [literalPattern ''export'', functionCallPattern,
              (\<lambda>s. map_option (\<lambda>_. ()) (keywordName ''class'' s)),
              (\<lambda>s. map_option (\<lambda>_. ()) (keywordName ''interface'' s))]"

text \<open>
  \<open>gitDiff a b file\<close> is the output of \<^verbatim>\<open>git diff a b -- "file"\<close>, \<open>None\<close> when the
  command throws. A file's commits are the newest first and never empty (a file enters
  the map of changes with its first commit), so they are given as the newest commit and
  the older ones.
\<close>

definition analyzeChangeImpact ::
  "(string \<Rightarrow> string \<Rightarrow> string \<Rightarrow> string option) \<Rightarrow> string \<Rightarrow> commit \<times> commit list \<Rightarrow> change_impact" where
  "analyzeChangeImpact gitDiff filePath commits =
     (let firstCommit = c_hash (fst commits);
          lastCommit = c_hash (last (fst commits # snd commits))
      in case gitDiff lastCommit firstCommit filePath of
           None \<Rightarrow>
             \<lparr>changeType = Modified, linesAdded = 0, linesRemoved = 0, totalLines = 0,
              impact = Unknown, hasBreakingChange = None\<rparr>
         | Some diff \<Rightarrow>
             (let added = countMarked CHR ''+'' True diff;
                  removed = countMarked CHR ''-'' True diff;
                  changed = added + removed;
                  changeType1 = (if added > 0 \<and> removed = 0 then Added else Modified);
                  changeType2 = (if removed > 0 \<and> added = 0 then Deleted else changeType1);
                  impact1 = (if changed > 100 then High else if changed > 20 then Medium else Low);
                  breaking = regexTest breakingPattern diff;
                  impact2 = (if breaking then High else impact1)
              in \<lparr>changeType = changeType2, linesAdded = added, linesRemoved = removed,
                  totalLines = changed, impact = impact2, hasBreakingChange = Some breaking\<rparr>))"

text \<open>
  The search for the documents a changed file affects: the document part of the key of
  every entry whose \<open>files\<close> holds the file's path.
\<close>

definition docFileOfKey :: "string \<Rightarrow> string" where
  "docFileOfKey key = hd (splitOn CHR ''#'' key)"

definition affectedDocs :: "(string \<times> pointer_entry) list \<Rightarrow> string \<Rightarrow> string list" where
  "affectedDocs codePointers filePath =
     setOf (map (\<lambda>(key, v). docFileOfKey key)
       (filter (\<lambda>(key, v). case pe_files v of None \<Rightarrow> False | Some fs \<Rightarrow> filePath \<in> set fs)
          codePointers))"

record affected_doc =
  code_file :: string
  change_type :: change_type
  lines_changed :: nat
  affected_documentation :: "string list"
  ad_impact :: impact
  breaking_change :: "bool option"
  most_recent_commit :: "string \<times> string \<times> int"

text \<open>Marking the documents of DOC_STATE.json that a change affects.\<close>

fun markStale :: "int \<Rightarrow> (string \<times> doc_state) list \<Rightarrow> string list \<Rightarrow> (string \<times> doc_state) list" where
  "markStale t docState [] = docState"
| "markStale t docState (docFile # docFiles) =
     (let docPath = ''context_for_llms/'' @ docFile in
      markStale t
        (case map_of docState docPath of
           None \<Rightarrow> docState
         | Some d \<Rightarrow>
             AList.update docPath
               (d\<lparr>ds_validationNeeded := True, ds_lastCodeChange := Some t, ds_status := Stale\<rparr>)
               docState)
        docFiles)"

text \<open>
  The loop of \<open>trackCodeChanges\<close> over the changed files, with the report's
  \<open>affected_docs\<close> and the document states as its state.
\<close>

fun trackLoop ::
  "(string \<Rightarrow> string \<Rightarrow> string \<Rightarrow> string option) \<Rightarrow> (string \<times> pointer_entry) list \<Rightarrow>
   affected_doc list \<times> (string \<times> doc_state) list \<Rightarrow> (string \<times> commit \<times> commit list) list \<Rightarrow>
   affected_doc list \<times> (string \<times> doc_state) list" where
  "trackLoop gitDiff codePointers st [] = st"
| "trackLoop gitDiff codePointers (report, docState) ((filePath, commits) # changes) =
     (let docs = affectedDocs codePointers filePath in
      trackLoop gitDiff codePointers
        (if length docs > 0 then
           (let analysis = analyzeChangeImpact gitDiff filePath commits in
            (report @
               [\<lparr>code_file = filePath, change_type = changeType analysis,
                 lines_changed = totalLines analysis, affected_documentation = docs,
                 ad_impact = impact analysis, breaking_change = hasBreakingChange analysis,
                 most_recent_commit =
                   (take 7 (c_hash (fst commits)), c_message (fst commits),
                    c_timestamp (fst commits))\<rparr>],
             markStale (c_timestamp (fst commits)) docState docs))
         else (report, docState))
        changes)"

fun impactOrder :: "impact \<Rightarrow> int" where
  "impactOrder High = 0"
| "impactOrder Medium = 1"
| "impactOrder Low = 2"
| "impactOrder Unknown = 3"

definition trackCodeChanges ::
  "(string \<Rightarrow> string \<Rightarrow> string \<Rightarrow> string option) \<Rightarrow> (string \<times> pointer_entry) list \<Rightarrow>
   (string \<times> doc_state) list \<Rightarrow> (string \<times> commit \<times> commit list) list \<Rightarrow>
   affected_doc list \<times> (string \<times> doc_state) list" where
  "trackCodeChanges gitDiff codePointers docState changes =
     (let (report, docState') = trackLoop gitDiff codePointers ([], docState) changes
      in (sortBy (\<lambda>a b. impactOrder (ad_impact a) - impactOrder (ad_impact b)) report, docState'))"

text \<open>
  The fallback outside a repository, \<open>trackViaFileTimes\<close>: a document is marked when
  one of its code files is newer than the document. \<open>fsys p\<close> is the modification
  time of the file at \<open>p\<close>, \<open>None\<close> when nothing exists there. The state is the
  document states and the number of changes found.
\<close>

fun fileTimesFiles ::
  "(string \<Rightarrow> int option) \<Rightarrow> string \<Rightarrow> (string \<times> doc_state) list \<times> nat \<Rightarrow> string list \<Rightarrow>
   (string \<times> doc_state) list \<times> nat" where
  "fileTimesFiles fsys docPath st [] = st"
| "fileTimesFiles fsys docPath (docState, changesFound) (codeFile # codeFiles) =
     fileTimesFiles fsys docPath
       (case fsys codeFile of
          None \<Rightarrow> (docState, changesFound)
        | Some codeModTime \<Rightarrow>
            (case fsys docPath of
               None \<Rightarrow> (docState, changesFound)
             | Some docModTime \<Rightarrow>
                 if codeModTime > docModTime then
                   (case map_of docState docPath of
                      None \<Rightarrow> (docState, changesFound)
                    | Some d \<Rightarrow>
                        (AList.update docPath
                           (d\<lparr>ds_validationNeeded := True, ds_lastCodeChange := Some codeModTime,
                              ds_status := Stale\<rparr>)
                           docState,
                         changesFound + 1))
                 else (docState, changesFound)))
       codeFiles"

fun trackViaFileTimes ::
  "(string \<Rightarrow> int option) \<Rightarrow> (string \<times> doc_state) list \<times> nat \<Rightarrow>
   (string \<times> pointer_entry) list \<Rightarrow> (string \<times> doc_state) list \<times> nat" where
  "trackViaFileTimes fsys st [] = st"
| "trackViaFileTimes fsys st ((key, v) # entries) =
     trackViaFileTimes fsys
       (case pe_files v of
          None \<Rightarrow> st
        | Some fs \<Rightarrow> fileTimesFiles fsys (''context_for_llms/'' @ docFileOfKey key) st fs)
       entries"

section \<open>Coverage Aggregator (analyze-coverage)\<close>

definition CODE_EXTENSIONS :: "string list" where
  "CODE_EXTENSIONS = [''.js'', ''.ts'', ''.jsx'', ''.tsx'', ''.py'', ''.go'', ''.rs'', ''.java'']"

text \<open>
  Files are absolute paths below the working directory \<open>cwd\<close>;
  \<^verbatim>\<open>path.join(cwd, f)\<close> and \<^verbatim>\<open>path.relative(cwd, p)\<close> for such paths.
\<close>

definition absPath :: "string \<Rightarrow> string \<Rightarrow> string" where
  "absPath cwd f = cwd @ ''/'' @ f"


text \<open>
  \<open>getAllCodeFiles\<close>: the tracked files (\<open>None\<close> outside a repository), or the files
  found under the source directories (\<open>walked\<close>) when there are none, with a code
  extension.
\<close>

definition getAllCodeFiles :: "string \<Rightarrow> string list option \<Rightarrow> string list \<Rightarrow> string list" where
  "getAllCodeFiles cwd gitFiles walked =
     (let tracked = (case gitFiles of None \<Rightarrow> [] | Some fs \<Rightarrow> map (absPath cwd) fs);
          allFiles = (if length tracked = 0 then walked else tracked)
      in filter (\<lambda>f. extname f \<in> set CODE_EXTENSIONS) allFiles)"

text \<open>The set of documented files: every path of every entry's \<open>files\<close>.\<close>

definition documentedFiles :: "(string \<times> pointer_entry) list \<Rightarrow> string list" where
  "documentedFiles codePointers =
     setOf (concat (map (\<lambda>(key, v). case pe_files v of None \<Rightarrow> [] | Some fs \<Rightarrow> fs) codePointers))"


















section \<open>Accuracy Validator (validate-accuracy)\<close>

datatype severity = SevError | SevWarning

datatype finding_type =
  broken_reference | code_example_error | deprecated_api | broken_code_link | stale_documentation

record finding =
  f_docFile :: string
  f_section :: "string option"
  f_type :: finding_type
  f_severity :: severity
  f_message :: string
  f_codeFile :: "string option"
  f_lastValidated :: "string option"
  f_codeModified :: "int option"
  f_context :: "string option"
  f_autoFixable :: bool
  f_requiresAIReview :: "bool option"
  f_suggestion :: "string option"

text \<open>Decimal digits of a number, for the messages.\<close>

fun showNat :: "nat \<Rightarrow> string" where
  "showNat n = (if n < 10 then [char_of (48 + n)] else showNat (n div 10) @ [char_of (48 + n mod 10)])"

declare showNat.simps [simp del]

definition showInt :: "int \<Rightarrow> string" where
  "showInt i = (if i < 0 then CHR ''-'' # showNat (nat (- i)) else showNat (nat i))"

subsection \<open>File paths mentioned in a document\<close>

definition pathExtensions :: "string list" where
  "pathExtensions = [''js'', ''ts'', ''jsx'', ''tsx'', ''py'', ''go'', ''rs'', ''java'', ''rb'']"

text \<open>
  \<^verbatim>\<open>[^x]+\.(js|ts|jsx|tsx|py|go|rs|java|rb)\<close> against the whole of a text without
  \<open>x\<close>: the text ends in a dot and an extension, with something before the dot. With
  \<open>withLine\<close>, a colon and digits may follow: \<^verbatim>\<open>(?::\d+)?\<close>.
\<close>

definition endsInExtension :: "string \<Rightarrow> bool" where
  "endsInExtension t =
     list_ex (\<lambda>ext. suffix (CHR ''.'' # ext) t \<and> length t > length ext + 1) pathExtensions"

definition pathShape :: "bool \<Rightarrow> string \<Rightarrow> bool" where
  "pathShape withLine t =
     (endsInExtension t \<or>
      (withLine \<and>
       (let ds = takeWhile isDigit (rev t) in
        ds \<noteq> [] \<and>
        (case dropWhile isDigit (rev t) of
           [] \<Rightarrow> False
         | c # r \<Rightarrow> c = CHR '':'' \<and> endsInExtension (rev r)))))"

text \<open>
  An opening delimiter, the text up to the next closing delimiter, which must have the
  shape of a path: the three patterns of \<open>extractFilePaths\<close>, between backticks (with
  an optional line number), between parentheses and between quotes.
\<close>

definition delimitedPath ::
  "(char \<Rightarrow> bool) \<Rightarrow> (char \<Rightarrow> bool) \<Rightarrow> bool \<Rightarrow> string \<Rightarrow> (string \<times> nat) option" where
  "delimitedPath isOpen isClose withLine s =
     (case s of
        [] \<Rightarrow> None
      | c # r \<Rightarrow>
          if isOpen c then
            (let t = takeWhile (\<lambda>x. \<not> isClose x) r in
             case dropWhile (\<lambda>x. \<not> isClose x) r of
               [] \<Rightarrow> None
             | _ # _ \<Rightarrow> if pathShape withLine t then Some (t, length t + 2) else None)
          else None)"

definition backtickPath :: "string \<Rightarrow> (string \<times> nat) option" where
  "backtickPath = delimitedPath (\<lambda>c. c = CHR 0x60) (\<lambda>c. c = CHR 0x60) True"

definition parenPath :: "string \<Rightarrow> (string \<times> nat) option" where
  "parenPath = delimitedPath (\<lambda>c. c = CHR ''('') (\<lambda>c. c = CHR '')'') False"

definition quotedPath :: "string \<Rightarrow> (string \<times> nat) option" where
  "quotedPath = delimitedPath isQuote isQuote False"

definition extractFilePaths :: "string \<Rightarrow> string list" where
  "extractFilePaths content =
     setOf (map (\<lambda>m. hd (splitOn CHR '':'' m))
       (scanAll backtickPath 0 content @ scanAll parenPath 0 content @ scanAll quotedPath 0 content))"

text \<open>
  The file system as the validator sees it: \<open>fsys p\<close> is the modification time of the
  file at \<open>p\<close> (relative to the working directory), \<open>None\<close> when nothing exists there.
\<close>

definition validateFilePaths :: "(string \<Rightarrow> int option) \<Rightarrow> string \<Rightarrow> string \<Rightarrow> finding list" where
  "validateFilePaths fsys docFile content =
     map (\<lambda>filePath.
            \<lparr>f_docFile = docFile, f_section = None, f_type = broken_reference,
             f_severity = SevError,
             f_message = ''Referenced file does not exist: '' @ filePath,
             f_codeFile = None, f_lastValidated = None, f_codeModified = None,
             f_context = None, f_autoFixable = False, f_requiresAIReview = None,
             f_suggestion = None\<rparr>)
       (filter (\<lambda>filePath. fsys filePath = None) (extractFilePaths content))"

subsection \<open>Code examples\<close>

text \<open>
  \<^verbatim>\<open>/```(\w+)?\n([\s\S]*?)```/g\<close>: as the extractor's pattern, with the language read
  from group 1 (\<^verbatim>\<open>unknown\<close> when it is empty) and the code trimmed.
\<close>

definition trim :: "string \<Rightarrow> string" where
  "trim s = rev (dropWhile isSpace (rev (dropWhile isSpace s)))"

definition codeExamplePattern :: "string \<Rightarrow> ((string \<times> string) \<times> nat) option" where
  "codeExamplePattern s =
     (case codeBlockPattern s of
        None \<Rightarrow> None
      | Some (body, n) \<Rightarrow>
          (let w = takeWhile isWord (drop 3 s)
           in Some ((if w = [] then ''unknown'' else w, trim body), n)))"

definition extractCodeExamples :: "string \<Rightarrow> (string \<times> string) list" where
  "extractCodeExamples content = scanAll codeExamplePattern 0 content"

definition exampleWarning :: "string \<Rightarrow> finding_type \<Rightarrow> string \<Rightarrow> string \<Rightarrow> string option \<Rightarrow> finding" where
  "exampleWarning docFile ty msg code sugg =
     \<lparr>f_docFile = docFile, f_section = None, f_type = ty, f_severity = SevWarning,
      f_message = msg, f_codeFile = None, f_lastValidated = None, f_codeModified = None,
      f_context = Some (take 100 code), f_autoFixable = False, f_requiresAIReview = None,
      f_suggestion = sugg\<rparr>"

definition exampleFindings :: "string \<Rightarrow> string \<times> string \<Rightarrow> finding list" where
  "exampleFindings docFile ex =
     (let language = fst ex; code = snd ex in
      if language = ''javascript'' \<or> language = ''typescript'' then
        (if count_list code CHR ''{'' \<noteq> count_list code CHR ''}''
         then [exampleWarning docFile code_example_error ''Code example has unmatched braces'' code None]
         else [])
        @ (if strIncludes code ''app.start(''
           then [exampleWarning docFile deprecated_api
                   ''Code example may use deprecated API: app.start()'' code
                   (Some ''Check if app.listen() should be used instead'')]
           else [])
      else [])"

definition validateCodeExamples :: "string \<Rightarrow> string \<Rightarrow> finding list" where
  "validateCodeExamples docFile content =
     concat (map (exampleFindings docFile) (extractCodeExamples content))"

subsection \<open>Pointers\<close>

text \<open>
  \<open>parseDate\<close> is \<^verbatim>\<open>new Date(string)\<close>: the time in milliseconds, \<open>None\<close> for an
  invalid date, whose arithmetic is NaN and compares false. One pass of the inner loop
  of \<open>validateViaCodePointers\<close>, for the file \<open>codeFile\<close> of the entry \<open>key\<close>:
\<close>

definition sectionOfKey :: "string \<Rightarrow> string option" where
  "sectionOfKey key = (case splitOn CHR ''#'' key of _ # s # _ \<Rightarrow> Some s | _ \<Rightarrow> None)"

definition checkCodeFile ::
  "(string \<Rightarrow> int option) \<Rightarrow> (string \<Rightarrow> int option) \<Rightarrow> string \<Rightarrow> pointer_entry \<Rightarrow> string \<Rightarrow> finding list" where
  "checkCodeFile fsys parseDate key v codeFile =
     (case fsys codeFile of
        None \<Rightarrow>
          [\<lparr>f_docFile = docFileOfKey key, f_section = None, f_type = broken_code_link,
            f_severity = SevError,
            f_message = ''CODE_POINTERS references non-existent file: '' @ codeFile,
            f_codeFile = Some codeFile, f_lastValidated = None, f_codeModified = None,
            f_context = None, f_autoFixable = False, f_requiresAIReview = None,
            f_suggestion = None\<rparr>]
      | Some modTime \<Rightarrow>
          (case pe_lastValidated v of
             None \<Rightarrow> []
           | Some lv \<Rightarrow>
               if lv = [] then []
               else
                 (case parseDate lv of
                    None \<Rightarrow> []
                  | Some lastValidated \<Rightarrow>
                      (let daysSinceValidation =
                             (of_int (modTime - lastValidated) :: rat) / of_int msPerDay
                       in if daysSinceValidation > 0 then
                            [\<lparr>f_docFile = docFileOfKey key, f_section = sectionOfKey key,
                              f_type = stale_documentation,
                              f_severity = (if daysSinceValidation > 7 then SevError else SevWarning),
                              f_message = ''Code changed '' @ showInt (round daysSinceValidation)
                                          @ '' days after last validation'',
                              f_codeFile = Some codeFile, f_lastValidated = Some lv,
                              f_codeModified = Some modTime, f_context = None,
                              f_autoFixable = False, f_requiresAIReview = Some True,
                              f_suggestion = None\<rparr>]
                          else []))))"

text \<open>The two loops, with \<^verbatim>\<open>errors.push\<close> appending to the list built so far.\<close>

fun checkFiles ::
  "(string \<Rightarrow> int option) \<Rightarrow> (string \<Rightarrow> int option) \<Rightarrow> string \<Rightarrow> pointer_entry \<Rightarrow>
   finding list \<Rightarrow> string list \<Rightarrow> finding list" where
  "checkFiles fsys parseDate key v errors [] = errors"
| "checkFiles fsys parseDate key v errors (codeFile # codeFiles) =
     checkFiles fsys parseDate key v (errors @ checkCodeFile fsys parseDate key v codeFile) codeFiles"

fun checkEntries ::
  "(string \<Rightarrow> int option) \<Rightarrow> (string \<Rightarrow> int option) \<Rightarrow> finding list \<Rightarrow>
   (string \<times> pointer_entry) list \<Rightarrow> finding list" where
  "checkEntries fsys parseDate errors [] = errors"
| "checkEntries fsys parseDate errors ((key, v) # entries) =
     checkEntries fsys parseDate
       (case pe_files v of
          None \<Rightarrow> errors
        | Some fs \<Rightarrow> checkFiles fsys parseDate key v errors fs)
       entries"

definition validateViaCodePointers ::
  "(string \<Rightarrow> int option) \<Rightarrow> (string \<Rightarrow> int option) \<Rightarrow> (string \<times> pointer_entry) list \<Rightarrow> finding list" where
  "validateViaCodePointers fsys parseDate codePointers = checkEntries fsys parseDate [] codePointers"

subsection \<open>The validation report\<close>

record validation =
  total_checks :: int
  passed :: int
  failed :: int
  warnings_count :: int
  accuracy_score :: rat
  v_errors :: "finding list"
  v_warnings :: "finding list"

datatype validation_error = DocsDirMissing | DocumentUnreadable string

text \<open>
  The loop over the documents, with the errors, the warnings and \<open>total_checks\<close> as
  its state. A document is named by its path below the working directory.
\<close>

fun validateDocs ::
  "(string \<Rightarrow> int option) \<Rightarrow> (string \<Rightarrow> string option) \<Rightarrow>
   finding list \<times> finding list \<times> int \<Rightarrow> string list \<Rightarrow>
   validation_error + finding list \<times> finding list \<times> int" where
  "validateDocs fsys readDoc st [] = Inr st"
| "validateDocs fsys readDoc (errors, warnings, checks) (f # files) =
     (let docPath = ''context_for_llms/'' @ f in
      case readDoc f of
        None \<Rightarrow> Inl (DocumentUnreadable f)
      | Some content \<Rightarrow>
          (let filePathErrors = validateFilePaths fsys docPath content;
               codeExampleErrors = validateCodeExamples docPath content
           in validateDocs fsys readDoc
                (errors @ filePathErrors
                   @ filter (\<lambda>e. f_severity e = SevError) codeExampleErrors,
                 warnings @ filter (\<lambda>e. f_severity e = SevWarning) codeExampleErrors,
                 checks + 1)
                files))"

definition validateAccuracy ::
  "(string \<Rightarrow> int option) \<Rightarrow> (string \<Rightarrow> int option) \<Rightarrow> (string \<times> pointer_entry) list \<Rightarrow>
   string list option \<Rightarrow> (string \<Rightarrow> string option) \<Rightarrow> validation_error + validation" where
  "validateAccuracy fsys parseDate codePointers docsDir readDoc =
     (case docsDir of
        None \<Rightarrow> Inl DocsDirMissing
      | Some names \<Rightarrow>
          (let codePointerErrors = validateViaCodePointers fsys parseDate codePointers;
               files = filter (\<lambda>f. endsWith f ''.md'') names
           in case validateDocs fsys readDoc
                     (filter (\<lambda>e. f_severity e = SevError) codePointerErrors,
                      filter (\<lambda>e. f_severity e = SevWarning) codePointerErrors, 0) files of
                Inl e \<Rightarrow> Inl e
              | Inr (errors, warnings, checks) \<Rightarrow>
                  (let failedCount = int (length errors);
                       passedCount = checks - failedCount
                   in Inr \<lparr>total_checks = checks, passed = passedCount, failed = failedCount,
                           warnings_count = int (length warnings),
                           accuracy_score =
                             (if checks > 0 then of_int passedCount / of_int checks else 1),
                           v_errors = errors, v_warnings = warnings\<rparr>)))"

section \<open>Notions used to state the properties\<close>



text \<open>The findings one entry of CODE_POINTERS contributes to a validation pass.\<close>

definition entryFindings ::
  "(string \<Rightarrow> int option) \<Rightarrow> (string \<Rightarrow> int option) \<Rightarrow> string \<times> pointer_entry \<Rightarrow> finding list" where
  "entryFindings fsys parseDate kv =
     (case pe_files (snd kv) of
        None \<Rightarrow> []
      | Some fs \<Rightarrow> concat (map (checkCodeFile fsys parseDate (fst kv) (snd kv)) fs))"

text \<open>An entry with neither property.\<close>

definition emptyEntry :: pointer_entry where
  "emptyEntry = \<lparr>pe_files = None, pe_lastValidated = None\<rparr>"

text \<open>The reasons a document's pointers give for one source file, each once.\<close>

definition reasonsFor :: "string \<Rightarrow> pointer list \<Rightarrow> string list" where
  "reasonsFor f ps = setOf (map p_reason (filter (\<lambda>p. p_file p = f) ps))"

section \<open>Example inputs\<close>

text \<open>
  Two documents: one mentions \<^verbatim>\<open>src/foo.ts\<close> in an inline code span only, the other
  imports it inside a fenced block.
\<close>

definition inlineMention :: string where
  "inlineMention = ''See '' @ [CHR 0x60] @ ''src/foo.ts'' @ [CHR 0x60] @ '' for details.''"

definition fencedImport :: string where
  "fencedImport = ''Usage:'' @ [CHR 0x0A] @ fence @ ''ts'' @ [CHR 0x0A]
     @ ''import { foo } from '' @ [CHR 0x27] @ ''src/foo.ts'' @ [CHR 0x27] @ '';'' @ [CHR 0x0A] @ fence"

definition noFiles :: "string \<Rightarrow> string option" where
  "noFiles f = None"

definition noFileExists :: "string \<Rightarrow> int option" where
  "noFileExists f = None"

definition contextDocs :: "string \<Rightarrow> string option" where
  "contextDocs f = (if f = ''a.md'' then Some fencedImport else None)"

text \<open>A date parser that knows the epoch.\<close>

definition epochString :: string where
  "epochString = ''1970-01-01T00:00:00.000Z''"

definition parseEpoch :: "string \<Rightarrow> int option" where
  "parseEpoch s = (if s = epochString then Some 0 else None)"

text \<open>
  A document \<^verbatim>\<open>a.md\<close> with one pointer to \<^verbatim>\<open>src/foo.ts\<close>, which was modified at
  \<open>t\<close>; no other file exists.
\<close>

definition fooModifiedAt :: "int \<Rightarrow> string \<Rightarrow> int option" where
  "fooModifiedAt t f = (if f = ''src/foo.ts'' then Some t else None)"

definition fooPointers :: "string option \<Rightarrow> (string \<times> pointer_entry) list" where
  "fooPointers lv = [(''a.md#overview'', \<lparr>pe_files = Some [''src/foo.ts''], pe_lastValidated = lv\<rparr>)]"




text \<open>A history of two commits and a diff of 150 added lines between them.\<close>

definition twoCommits :: "commit \<times> commit list" where
  "twoCommits =
     (\<lparr>c_hash = ''b2c3d4e5f6'', c_timestamp = 8 * msPerDay, c_message = ''rework foo''\<rparr>,
      [\<lparr>c_hash = ''a1b2c3d4e5'', c_timestamp = 7 * msPerDay, c_message = ''add foo''\<rparr>])"

definition diff150 :: string where
  "diff150 = concat (replicate 150 (''+x'' @ [CHR 0x0A]))"

definition fooDiff :: "string \<Rightarrow> string \<Rightarrow> string \<Rightarrow> string option" where
  "fooDiff a b f =
     (if a = ''a1b2c3d4e5'' \<and> b = ''b2c3d4e5f6'' \<and> f = ''src/foo.ts'' then Some diff150 else None)"








text \<open>
  A document whose fenced block defines the class \<^verbatim>\<open>Foo\<close> twice, with an import
  between the two; and a source file that defines the class.
\<close>

definition twiceFoo :: string where
  "twiceFoo = fence @ ''ts'' @ [CHR 0x0A] @ ''class Foo {}'' @ [CHR 0x0A]
     @ ''import '' @ [CHR 0x27] @ ''src/foo.ts'' @ [CHR 0x27] @ [CHR 0x0A]
     @ ''class Foo {}'' @ [CHR 0x0A] @ fence"

definition fooSource :: "string \<Rightarrow> string option" where
  "fooSource f = (if f = ''src/foo.ts'' then Some ''export class Foo {}'' else None)"

text \<open>
  A document that imports the module \<^verbatim>\<open>./foo\<close> inside a fenced block, with no
  file path anywhere in its text.
\<close>

definition importsModule :: string where
  "importsModule = ''Usage:'' @ [CHR 0x0A] @ fence @ ''ts'' @ [CHR 0x0A]
     @ ''import { foo } from '' @ [CHR 0x27] @ ''./foo'' @ [CHR 0x27] @ '';'' @ [CHR 0x0A] @ fence"

definition moduleDocs :: "string \<Rightarrow> string option" where
  "moduleDocs f = (if f = ''a.md'' then Some importsModule else None)"

text \<open>A document that names two files, neither of which exists.\<close>

definition twoBrokenPaths :: string where
  "twoBrokenPaths = ''See '' @ [CHR 0x60] @ ''src/x.js'' @ [CHR 0x60] @ '' and ''
     @ [CHR 0x60] @ ''src/y.js'' @ [CHR 0x60] @ ''.''"

definition brokenDocs :: "string \<Rightarrow> string option" where
  "brokenDocs f = (if f = ''a.md'' then Some twoBrokenPaths else None)"

section \<open>Staleness risk\<close>

lemma msPerDay_pos: "0 < msPerDay"
  by (simp add: msPerDay_def)














section \<open>Impact tier\<close>

text \<open>When the diff cannot be obtained the impact is unknown and the counts are zero.\<close>

lemma analyzeChangeImpact_no_diff:
  assumes "gitDiff (c_hash (last (fst commits # snd commits))) (c_hash (fst commits)) filePath = None"
  shows "analyzeChangeImpact gitDiff filePath commits =
           \<lparr>changeType = Modified, linesAdded = 0, linesRemoved = 0, totalLines = 0,
            impact = Unknown, hasBreakingChange = None\<rparr>"
  using assms by (simp add: analyzeChangeImpact_def Let_def)

text \<open>
  Claim C5. For every changed file whose diff between the earliest and the latest commit
  was obtained, the impact tier is high if the total changed lines (lines added plus
  lines removed) exceed 100 or the breaking-change flag is set, medium if they exceed
  20, and low otherwise.
\<close>

theorem C5_impact_tier:
  assumes "gitDiff (c_hash (last (fst commits # snd commits))) (c_hash (fst commits)) filePath
             = Some diff"
  shows "(let r = analyzeChangeImpact gitDiff filePath commits in
           linesAdded r = countMarked CHR ''+'' True diff \<and>
           linesRemoved r = countMarked CHR ''-'' True diff \<and>
           totalLines r = linesAdded r + linesRemoved r \<and>
           hasBreakingChange r = Some (regexTest breakingPattern diff) \<and>
           impact r = (if totalLines r > 100 \<or> hasBreakingChange r = Some True then High
                       else if totalLines r > 20 then Medium else Low))"
  using assms by (simp add: analyzeChangeImpact_def Let_def)

text \<open>
  The scenario of the specification: 150 changed lines and no breaking change give the
  tier high.
\<close>

theorem C5_impact_tier_witness:
  "fooDiff (c_hash (last (fst twoCommits # snd twoCommits))) (c_hash (fst twoCommits)) ''src/foo.ts''
     = Some diff150
   \<and> totalLines (analyzeChangeImpact fooDiff ''src/foo.ts'' twoCommits) = 150
   \<and> hasBreakingChange (analyzeChangeImpact fooDiff ''src/foo.ts'' twoCommits) = Some False
   \<and> impact (analyzeChangeImpact fooDiff ''src/foo.ts'' twoCommits) = High"
proof -
  have h: "fooDiff (c_hash (last (fst twoCommits # snd twoCommits))) (c_hash (fst twoCommits))
             ''src/foo.ts'' = Some diff150"
    by (simp add: fooDiff_def twoCommits_def)
  have added: "countMarked CHR ''+'' True diff150 = 150"
    by code_simp
  have removed: "countMarked CHR ''-'' True diff150 = 0"
    by code_simp
  have breaking: "regexTest breakingPattern diff150 = False"
    by code_simp
  show ?thesis
    using C5_impact_tier[where gitDiff = fooDiff and commits = twoCommits
        and filePath = "''src/foo.ts''" and diff = diff150, OF h] h
    by (simp add: Let_def added removed breaking)
qed

section \<open>Extraction and resolution\<close>

lemma scanAll_no_match: "(\<And>s. sublist s content \<Longrightarrow> m s = None) \<Longrightarrow> scanAll m k content = []"
proof (induction content arbitrary: k)
  case Nil
  then show ?case by simp
next
  case (Cons c cs)
  have tl: "\<And>s. sublist s cs \<Longrightarrow> m s = None"
    using Cons.prems by (simp add: sublist_Cons_right)
  have hd: "m (c # cs) = None" using Cons.prems by simp
  show ?case
  proof (cases k)
    case 0
    then show ?thesis using hd Cons.IH[OF tl] by simp
  next
    case (Suc k')
    then show ?thesis using Cons.IH[OF tl] by simp
  qed
qed

lemma codeBlockPattern_needs_fence: "\<not> prefix fence s \<Longrightarrow> codeBlockPattern s = None"
  by (simp add: codeBlockPattern_def)

lemma no_fence_no_blocks:
  assumes "\<not> strIncludes content fence"
  shows "scanAll codeBlockPattern k content = []"
proof (rule scanAll_no_match)
  fix s assume s: "sublist s content"
  have "\<not> prefix fence s"
  proof
    assume "prefix fence s"
    then have "sublist fence s" by (rule prefix_imp_sublist)
    then have "sublist fence content" using s by (rule sublist_order.order_trans)
    then show False using assms by (simp add: strIncludes_def)
  qed
  then show "codeBlockPattern s = None" by (rule codeBlockPattern_needs_fence)
qed

text \<open>
  Claim C3, as amended. References are extracted from fenced code regions only: for a
  document without a fence, in particular one that mentions a source file path only
  inside an inline code span, the Reference Extractor returns no reference and the
  Source Resolver produces no Pointer, whatever the source set.
\<close>

theorem C3_no_fence_no_pointer:
  assumes "\<not> strIncludes content fence"
  shows "extractCodeReferences content = [] \<and>
         matchReferencesToFiles readFile (extractCodeReferences content) sourceFiles = []"
  using no_fence_no_blocks[OF assms, of 0]
  by (simp add: extractCodeReferences_def matchReferencesToFiles_def)

text \<open>The document that mentions \<^verbatim>\<open>src/foo.ts\<close> in an inline code span within prose.\<close>

theorem C3_no_fence_no_pointer_witness:
  "\<not> strIncludes inlineMention fence \<and>
   extractCodeReferences inlineMention = [] \<and>
   matchReferencesToFiles noFiles (extractCodeReferences inlineMention) [''src/foo.ts''] = []"
proof -
  have h: "\<not> strIncludes inlineMention fence" by code_simp
  show ?thesis
    using C3_no_fence_no_pointer[OF h, of noFiles "[''src/foo.ts'']"] h by blast
qed

text \<open>
  The claim as stated fails on its own example: the document is the inline code span
  \<^verbatim>\<open>`src/foo.ts`\<close>, the file is in the source set, and no Pointer is produced.
\<close>

theorem C3_counterexample:
  "matchReferencesToFiles noFiles
     (extractCodeReferences ([CHR 0x60] @ ''src/foo.ts'' @ [CHR 0x60])) [''src/foo.ts''] = []"
  by (simp add: extractCodeReferences_def codeBlockPattern_def fence_def matchReferencesToFiles_def)

lemma isCandidate_self: "isCandidate v v"
  by (simp add: isCandidate_def strIncludes_def)

lemma import_pointer:
  assumes "r \<in> set references" "ref_type r = Import" "f \<in> set sourceFiles"
    "isCandidate (ref_value r) f"
  shows "\<lparr>p_file = f, p_reason = ''imports '' @ ref_value r\<rparr>
           \<in> set (matchReferencesToFiles readFile references sourceFiles)"
proof -
  have "\<lparr>p_file = f, p_reason = ''imports '' @ ref_value r\<rparr>
          \<in> set (referencePointers readFile sourceFiles r)"
    using assms(2,3,4) by (simp add: referencePointers_def)
  then show ?thesis
    using assms(1) by (auto simp: matchReferencesToFiles_def)
qed

text \<open>
  Claim C4. For every path-literal reference whose value is the path of a file in the
  source set, the Source Resolver produces a Pointer to that file, since every source
  file gets a Pointer whose path contains the reference's value or whose base name,
  its extension stripped, is the base name of the reference's value.
\<close>

theorem C4_exact_path_resolves:
  assumes "r \<in> set references" "ref_type r = Import" "ref_value r \<in> set sourceFiles"
  shows "\<lparr>p_file = ref_value r, p_reason = ''imports '' @ ref_value r\<rparr>
           \<in> set (matchReferencesToFiles readFile references sourceFiles)
         \<and> (\<forall>f \<in> set sourceFiles.
               strIncludes f (ref_value r) \<or> basenameNoExt f = basename (ref_value r) \<longrightarrow>
               \<lparr>p_file = f, p_reason = ''imports '' @ ref_value r\<rparr>
                 \<in> set (matchReferencesToFiles readFile references sourceFiles))"
proof -
  have a: "\<lparr>p_file = ref_value r, p_reason = ''imports '' @ ref_value r\<rparr>
             \<in> set (matchReferencesToFiles readFile references sourceFiles)"
    using import_pointer[OF assms(1,2,3) isCandidate_self] .
  have b: "\<lparr>p_file = f, p_reason = ''imports '' @ ref_value r\<rparr>
             \<in> set (matchReferencesToFiles readFile references sourceFiles)"
    if "f \<in> set sourceFiles"
      "strIncludes f (ref_value r) \<or> basenameNoExt f = basename (ref_value r)" for f
    using import_pointer[OF assms(1,2) that(1)] that(2) by (simp add: isCandidate_def)
  show ?thesis using a b by blast
qed

text \<open>
  The document with the fenced import of \<^verbatim>\<open>src/foo.ts\<close>, resolved against a source
  set that holds the file.
\<close>

theorem C4_exact_path_resolves_witness:
  "\<lparr>ref_type = Import, ref_value = ''src/foo.ts''\<rparr> \<in> set (extractCodeReferences fencedImport)
   \<and> ''src/foo.ts'' \<in> set [''src/bar.ts'', ''src/foo.ts'']
   \<and> \<lparr>p_file = ''src/foo.ts'', p_reason = ''imports src/foo.ts''\<rparr>
        \<in> set (matchReferencesToFiles noFiles (extractCodeReferences fencedImport)
                 [''src/bar.ts'', ''src/foo.ts''])"
proof -
  have e: "extractCodeReferences fencedImport = [\<lparr>ref_type = Import, ref_value = ''src/foo.ts''\<rparr>]"
    by code_simp
  have h1: "\<lparr>ref_type = Import, ref_value = ''src/foo.ts''\<rparr> \<in> set (extractCodeReferences fencedImport)"
    by (simp add: e)
  have h3: "ref_value \<lparr>ref_type = Import, ref_value = ''src/foo.ts''\<rparr> \<in> set [''src/bar.ts'', ''src/foo.ts'']"
    by simp
  show ?thesis
    using C4_exact_path_resolves[OF h1 _ h3, of noFiles] h1 by simp
qed

section \<open>The generated file and its consumers\<close>

lemma docMappings_keys:
  assumes "docMappings readDoc readFile sourceFiles m ds = Inr m'"
  shows "fst ` set m' \<subseteq> fst ` set m \<union> set ds"
  using assms
proof (induction ds arbitrary: m)
  case Nil
  then show ?case by simp
next
  case (Cons d ds)
  from Cons.prems obtain content where c: "readDoc d = Some content"
    by (cases "readDoc d") simp_all
  let ?ps = "matchReferencesToFiles readFile (extractCodeReferences content) sourceFiles"
  let ?m = "if length ?ps > 0 then AList.update d (groupPointers ?ps) m else m"
  have "docMappings readDoc readFile sourceFiles ?m ds = Inr m'"
    using Cons.prems c by (simp add: Let_def)
  from Cons.IH[OF this] have "fst ` set m' \<subseteq> fst ` set ?m \<union> set ds" .
  moreover have "fst ` set ?m \<subseteq> fst ` set m \<union> {d}"
    by (auto simp: dom_update)
  ultimately show ?case by auto
qed

lemma not_md: "\<not> endsWith ''files'' ''.md''" "\<not> endsWith ''lastValidated'' ''.md''"
  by (simp_all add: endsWith_def suffix_to_prefix)

lemma map_of_mappings:
  "k \<notin> fst ` set m \<Longrightarrow>
   map_of (map (\<lambda>(docFile, x). (docFile, JObj (map (\<lambda>(f, rs). (f, JArr (map JStr rs))) x))) m) k = None"
  by (induction m) auto

lemma readPointerEntry_mappings:
  assumes "''files'' \<notin> fst ` set m" "''lastValidated'' \<notin> fst ` set m"
  shows "readPointerEntry (mappingsJson m) = Some emptyEntry"
  using assms
  by (simp add: mappingsJson_def readFilesProperty_def readLastValidatedProperty_def
      map_of_mappings emptyEntry_def)

lemma generated_shape:
  assumes "generateCodePointers now contextDir readDoc sourceFiles readFile = Inr j"
  shows "readCodePointers j =
           Some [(''generated'', emptyEntry), (''total_source_files'', emptyEntry),
                 (''total_mappings'', emptyEntry), (''mappings'', emptyEntry)]"
proof -
  from assms obtain names where n: "contextDir = Some names"
    by (cases contextDir) (simp_all add: generateCodePointers_def)
  let ?docs = "filter (\<lambda>f. endsWith f ''.md'') names"
  from assms n obtain m where
    m: "docMappings readDoc readFile sourceFiles [] ?docs = Inr m"
    and j: "j = JObj [(''generated'', JStr now),
                      (''total_source_files'', JNum (int (length sourceFiles))),
                      (''total_mappings'', JNum (int (length m))),
                      (''mappings'', mappingsJson m)]"
    by (auto simp: generateCodePointers_def Let_def split: sum.splits)
  have keys: "fst ` set m \<subseteq> set ?docs" using docMappings_keys[OF m] by simp
  have "''files'' \<notin> fst ` set m" "''lastValidated'' \<notin> fst ` set m"
    using keys not_md by auto
  then have "readPointerEntry (mappingsJson m) = Some emptyEntry"
    by (rule readPointerEntry_mappings)
  then show ?thesis
    unfolding j by (simp add: emptyEntry_def)
qed

lemma documentedFiles_no_files:
  assumes "\<forall>(k, e) \<in> set es. pe_files e = None"
  shows "documentedFiles es = []"
proof -
  have "concat (map (\<lambda>(key, v). case pe_files v of None \<Rightarrow> [] | Some fs \<Rightarrow> fs) es) = []"
    using assms by (induction es) auto
  then show ?thesis by (simp only: documentedFiles_def setOf_def) simp
qed

lemma affectedDocs_no_files:
  assumes "\<forall>(k, e) \<in> set es. pe_files e = None"
  shows "affectedDocs es filePath = []"
proof -
  have "filter (\<lambda>(key, v). case pe_files v of None \<Rightarrow> False | Some fs \<Rightarrow> filePath \<in> set fs) es = []"
    using assms by (induction es) auto
  then show ?thesis by (simp only: affectedDocs_def setOf_def) simp
qed

lemma trackLoop_no_files:
  assumes "\<forall>(k, e) \<in> set es. pe_files e = None"
  shows "trackLoop gitDiff es st changes = st"
proof (induction changes arbitrary: st)
  case Nil
  then show ?case by simp
next
  case (Cons ch changes)
  obtain filePath commits where ch: "ch = (filePath, commits)" by (cases ch)
  obtain report docState where st: "st = (report, docState)" by (cases st)
  show ?case
    unfolding ch st using Cons.IH affectedDocs_no_files[OF assms]
    by (simp add: Let_def)
qed

lemma trackViaFileTimes_no_files:
  assumes "\<forall>(k, e) \<in> set es. pe_files e = None"
  shows "trackViaFileTimes fsys st es = st"
  using assms by (induction es arbitrary: st) auto

text \<open>
  Claim C2. Every CODE_POINTERS.json written by the pointer generator is an object with
  the keys generated, total_source_files, total_mappings and mappings. Its consumers
  iterate the top-level entries and read \<open>files\<close> from each value; they find it on
  none, so the Coverage Aggregator's documented set is empty and the Change History
  Tracker finds no affected document for any changed file (its report stays empty and
  no document state is touched, with the history and with modification times alike),
  whatever the mappings hold.
\<close>

theorem C2_generated_file_has_no_files_field:
  assumes "generateCodePointers now contextDir readDoc sourceFiles readFile = Inr j"
  shows "\<exists>es. readCodePointers j = Some es
           \<and> map fst es = [''generated'', ''total_source_files'', ''total_mappings'', ''mappings'']
           \<and> (\<forall>(k, e) \<in> set es. pe_files e = None)
           \<and> documentedFiles es = []
           \<and> (\<forall>filePath. affectedDocs es filePath = [])
           \<and> (\<forall>gitDiff docState changes.
                 trackCodeChanges gitDiff es docState changes = ([], docState))
           \<and> (\<forall>fsys docState. trackViaFileTimes fsys (docState, 0) es = (docState, 0))"
proof -
  let ?es = "[(''generated'', emptyEntry), (''total_source_files'', emptyEntry),
              (''total_mappings'', emptyEntry), (''mappings'', emptyEntry)]"
  have r: "readCodePointers j = Some ?es" by (rule generated_shape[OF assms])
  have nf: "\<forall>(k, e) \<in> set ?es. pe_files e = None" by (simp add: emptyEntry_def)
  have t: "trackCodeChanges gitDiff ?es docState changes = ([], docState)"
    for gitDiff docState changes
    by (simp only: trackCodeChanges_def trackLoop_no_files[OF nf]) (simp add: sortBy_def)
  show ?thesis
    using r nf documentedFiles_no_files[OF nf] affectedDocs_no_files[OF nf] t
      trackViaFileTimes_no_files[OF nf]
    by (intro exI[of _ ?es]) simp
qed


text \<open>
  A run on a context directory whose document imports \<^verbatim>\<open>src/foo.ts\<close>: the mapping
  is written, and the consumers see no files.
\<close>

theorem C2_generated_file_has_no_files_field_witness:
  "generateCodePointers epochString (Some [''a.md'', ''notes.txt'']) contextDocs
     [''src/bar.ts'', ''src/foo.ts''] noFiles
   = Inr (JObj [(''generated'', JStr epochString), (''total_source_files'', JNum 2),
                (''total_mappings'', JNum 1),
                (''mappings'',
                 JObj [(''a.md'', JObj [(''src/foo.ts'', JArr [JStr ''imports src/foo.ts''])])])])
   \<and> (\<exists>es. readCodePointers
             (JObj [(''generated'', JStr epochString), (''total_source_files'', JNum 2),
                    (''total_mappings'', JNum 1),
                    (''mappings'',
                     JObj [(''a.md'', JObj [(''src/foo.ts'', JArr [JStr ''imports src/foo.ts''])])])])
             = Some es
           \<and> documentedFiles es = [] \<and> affectedDocs es ''src/foo.ts'' = [])"
proof -
  have g: "generateCodePointers epochString (Some [''a.md'', ''notes.txt'']) contextDocs
             [''src/bar.ts'', ''src/foo.ts''] noFiles
           = Inr (JObj [(''generated'', JStr epochString), (''total_source_files'', JNum 2),
                        (''total_mappings'', JNum 1),
                        (''mappings'',
                         JObj [(''a.md'', JObj [(''src/foo.ts'', JArr [JStr ''imports src/foo.ts''])])])])"
    by code_simp
  show ?thesis
    using C2_generated_file_has_no_files_field[OF g] g by blast
qed

section \<open>Accuracy validation of pointers\<close>

lemma checkFiles_append:
  "checkFiles fsys pd key v errs fs = errs @ concat (map (checkCodeFile fsys pd key v) fs)"
  by (induction fs arbitrary: errs) simp_all

lemma checkEntries_append:
  "checkEntries fsys pd errs cps = errs @ concat (map (entryFindings fsys pd) cps)"
proof (induction cps arbitrary: errs)
  case Nil
  then show ?case by simp
next
  case (Cons kv cps)
  obtain key v where kv: "kv = (key, v)" by (cases kv)
  show ?case
    unfolding kv using Cons.IH
    by (cases "pe_files v") (simp_all add: entryFindings_def checkFiles_append)
qed

lemma validateViaCodePointers_concat:
  "validateViaCodePointers fsys pd cps = concat (map (entryFindings fsys pd) cps)"
  by (simp add: validateViaCodePointers_def checkEntries_append)

lemma checkCodeFile_fields:
  assumes "e \<in> set (checkCodeFile fsys pd key v c)"
  shows "f_codeFile e = Some c \<and> f_docFile e = docFileOfKey key \<and> \<not> f_autoFixable e \<and>
         (f_type e = broken_code_link \<or> f_type e = stale_documentation) \<and>
         (f_type e = stale_documentation \<longrightarrow> f_section e = sectionOfKey key \<and> fsys c \<noteq> None) \<and>
         (f_type e = broken_code_link \<longrightarrow> f_severity e = SevError \<and> fsys c = None)"
  using assms
  by (auto simp: checkCodeFile_def Let_def split: option.splits if_splits)

lemma checkCodeFile_missing:
  assumes "fsys c = None"
  shows "\<exists>e. checkCodeFile fsys pd key v c = [e] \<and> f_type e = broken_code_link \<and>
             f_severity e = SevError \<and> \<not> f_autoFixable e \<and> f_codeFile e = Some c \<and>
             f_docFile e = docFileOfKey key"
  using assms by (simp add: checkCodeFile_def)

lemma in_validateViaCodePointers:
  "e \<in> set (validateViaCodePointers fsys pd cps) \<longleftrightarrow>
     (\<exists>key v fs c. (key, v) \<in> set cps \<and> pe_files v = Some fs \<and> c \<in> set fs \<and>
        e \<in> set (checkCodeFile fsys pd key v c))"
proof
  assume "e \<in> set (validateViaCodePointers fsys pd cps)"
  then obtain kv where kv: "kv \<in> set cps" "e \<in> set (entryFindings fsys pd kv)"
    unfolding validateViaCodePointers_concat by auto
  obtain key v where k: "kv = (key, v)" by (cases kv)
  from kv(2) obtain fs where fs: "pe_files v = Some fs"
      "e \<in> set (concat (map (checkCodeFile fsys pd key v) fs))"
    unfolding k by (cases "pe_files v") (simp_all add: entryFindings_def)
  then obtain c where "c \<in> set fs" "e \<in> set (checkCodeFile fsys pd key v c)" by auto
  then show "\<exists>key v fs c. (key, v) \<in> set cps \<and> pe_files v = Some fs \<and> c \<in> set fs \<and>
        e \<in> set (checkCodeFile fsys pd key v c)"
    using kv(1) k fs(1) by blast
next
  assume "\<exists>key v fs c. (key, v) \<in> set cps \<and> pe_files v = Some fs \<and> c \<in> set fs \<and>
        e \<in> set (checkCodeFile fsys pd key v c)"
  then obtain key v fs c where h: "(key, v) \<in> set cps" "pe_files v = Some fs" "c \<in> set fs"
      "e \<in> set (checkCodeFile fsys pd key v c)" by blast
  have "e \<in> set (entryFindings fsys pd (key, v))"
    using h(2,3,4) by (auto simp: entryFindings_def)
  then show "e \<in> set (validateViaCodePointers fsys pd cps)"
    unfolding validateViaCodePointers_concat using h(1) by auto
qed

lemma validateDocs_result:
  assumes "validateDocs fsys readDoc (errs, warns, n) files = Inr (errs', warns', n')"
  shows "\<exists>es ws. errs' = errs @ es \<and> warns' = warns @ ws \<and>
           (\<forall>w \<in> set ws. f_codeFile w = None) \<and> n' = n + int (length files)"
  using assms
proof (induction files arbitrary: errs warns n)
  case Nil
  then show ?case by simp
next
  case (Cons f files)
  from Cons.prems obtain content where c: "readDoc f = Some content"
    by (cases "readDoc f") simp_all
  let ?d = "''context_for_llms/'' @ f"
  let ?ce = "validateCodeExamples ?d content"
  have step: "validateDocs fsys readDoc
          (errs @ validateFilePaths fsys ?d content @ filter (\<lambda>e. f_severity e = SevError) ?ce,
           warns @ filter (\<lambda>e. f_severity e = SevWarning) ?ce, n + 1) files
        = Inr (errs', warns', n')"
    using Cons.prems c by (simp add: Let_def)
  from Cons.IH[OF step] obtain es ws where
    r: "errs' = (errs @ validateFilePaths fsys ?d content @ filter (\<lambda>e. f_severity e = SevError) ?ce) @ es"
       "warns' = (warns @ filter (\<lambda>e. f_severity e = SevWarning) ?ce) @ ws"
       "\<forall>w \<in> set ws. f_codeFile w = None" "n' = n + 1 + int (length files)"
    by blast
  have ex: "\<forall>w \<in> set ?ce. f_codeFile w = None"
    by (auto simp: validateCodeExamples_def exampleFindings_def exampleWarning_def Let_def
        split: if_splits)
  show ?case
    apply (rule exI[of _ "validateFilePaths fsys ?d content @ filter (\<lambda>e. f_severity e = SevError) ?ce @ es"])
    apply (rule exI[of _ "filter (\<lambda>e. f_severity e = SevWarning) ?ce @ ws"])
    using r ex by auto
qed

text \<open>
  What the check does for an entry that carries a \<open>files\<close> list: for every listed
  file that does not exist, the validation pass records a finding of type
  broken_code_link, with severity error and not auto-fixable; every finding about that
  file is such an error, never a warning; and in the report of \<open>validateAccuracy\<close>
  the finding is among the errors and no warning is about that file.
\<close>

lemma listed_missing_file_is_error:
  assumes "(key, v) \<in> set cps" "pe_files v = Some fs" "codeFile \<in> set fs" "fsys codeFile = None"
  shows "(\<exists>e \<in> set (validateViaCodePointers fsys parseDate cps).
            f_type e = broken_code_link \<and> f_docFile e = docFileOfKey key \<and>
            f_codeFile e = Some codeFile \<and> f_severity e = SevError \<and> \<not> f_autoFixable e)
       \<and> (\<forall>e \<in> set (validateViaCodePointers fsys parseDate cps).
            f_codeFile e = Some codeFile \<longrightarrow>
              f_type e = broken_code_link \<and> f_severity e = SevError \<and> \<not> f_autoFixable e)
       \<and> (\<forall>docsDir readDoc report.
            validateAccuracy fsys parseDate cps docsDir readDoc = Inr report \<longrightarrow>
              (\<exists>e \<in> set (v_errors report).
                 f_type e = broken_code_link \<and> f_docFile e = docFileOfKey key \<and>
                 f_codeFile e = Some codeFile) \<and>
              (\<forall>w \<in> set (v_warnings report). f_codeFile w \<noteq> Some codeFile))"
proof -
  let ?r = "validateViaCodePointers fsys parseDate cps"
  obtain e where e: "checkCodeFile fsys parseDate key v codeFile = [e]"
      "f_type e = broken_code_link" "f_severity e = SevError" "\<not> f_autoFixable e"
      "f_codeFile e = Some codeFile" "f_docFile e = docFileOfKey key"
    using checkCodeFile_missing[where fsys = fsys and c = codeFile, OF assms(4)] by blast
  have ein: "e \<in> set ?r"
    unfolding in_validateViaCodePointers using assms(1,2,3) e(1) by force
  have a: "\<exists>e \<in> set ?r. f_type e = broken_code_link \<and> f_docFile e = docFileOfKey key \<and>
            f_codeFile e = Some codeFile \<and> f_severity e = SevError \<and> \<not> f_autoFixable e"
    using ein e by blast
  have b: "\<forall>x \<in> set ?r. f_codeFile x = Some codeFile \<longrightarrow>
              f_type x = broken_code_link \<and> f_severity x = SevError \<and> \<not> f_autoFixable x"
  proof (intro ballI impI)
    fix x assume x: "x \<in> set ?r" "f_codeFile x = Some codeFile"
    then obtain k' v' c' where c': "x \<in> set (checkCodeFile fsys parseDate k' v' c')"
      unfolding in_validateViaCodePointers by blast
    from checkCodeFile_fields[OF c'] x(2) assms(4)
    show "f_type x = broken_code_link \<and> f_severity x = SevError \<and> \<not> f_autoFixable x"
      by auto
  qed
  have c: "\<forall>docsDir readDoc report.
            validateAccuracy fsys parseDate cps docsDir readDoc = Inr report \<longrightarrow>
              (\<exists>e \<in> set (v_errors report).
                 f_type e = broken_code_link \<and> f_docFile e = docFileOfKey key \<and>
                 f_codeFile e = Some codeFile) \<and>
              (\<forall>w \<in> set (v_warnings report). f_codeFile w \<noteq> Some codeFile)"
  proof (intro allI impI)
    fix docsDir readDoc report
    assume va: "validateAccuracy fsys parseDate cps docsDir readDoc = Inr report"
    then obtain names where n: "docsDir = Some names"
      by (cases docsDir) (simp_all add: validateAccuracy_def)
    let ?files = "filter (\<lambda>f. endsWith f ''.md'') names"
    let ?e0 = "filter (\<lambda>e. f_severity e = SevError) ?r"
    let ?w0 = "filter (\<lambda>e. f_severity e = SevWarning) ?r"
    from va n obtain errs warns checks where
      vd: "validateDocs fsys readDoc (?e0, ?w0, 0) ?files = Inr (errs, warns, checks)"
      and rep: "v_errors report = errs" "v_warnings report = warns"
      by (auto simp: validateAccuracy_def Let_def split: sum.splits)
    from validateDocs_result[OF vd] obtain es ws where
      r: "errs = ?e0 @ es" "warns = ?w0 @ ws" "\<forall>w \<in> set ws. f_codeFile w = None"
      by blast
    have "e \<in> set errs" using r(1) ein e(3) by simp
    moreover have "\<forall>w \<in> set warns. f_codeFile w \<noteq> Some codeFile"
    proof
      fix w assume "w \<in> set warns"
      then consider "w \<in> set ?w0" | "w \<in> set ws" using r(2) by auto
      then show "f_codeFile w \<noteq> Some codeFile"
      proof cases
        case 1
        then have "w \<in> set ?r" "f_severity w = SevWarning" by auto
        then show ?thesis using b by auto
      next
        case 2
        then show ?thesis using r(3) by auto
      qed
    qed
    ultimately show "(\<exists>e \<in> set (v_errors report).
                 f_type e = broken_code_link \<and> f_docFile e = docFileOfKey key \<and>
                 f_codeFile e = Some codeFile) \<and>
              (\<forall>w \<in> set (v_warnings report). f_codeFile w \<noteq> Some codeFile)"
      using rep e by blast
  qed
  show ?thesis using a b c by blast
qed


text \<open>
  The file the generator writes has no entry with a \<open>files\<close> list, so the check
  finds nothing in it, whatever the file system holds.
\<close>

lemma generated_file_no_findings:
  assumes "generateCodePointers now contextDir readDoc sourceFiles readFile = Inr j"
  shows "\<exists>es. readCodePointers j = Some es \<and> validateViaCodePointers fsys parseDate es = []"
proof -
  let ?es = "[(''generated'', emptyEntry), (''total_source_files'', emptyEntry),
              (''total_mappings'', emptyEntry), (''mappings'', emptyEntry)]"
  have r: "readCodePointers j = Some ?es" by (rule generated_shape[OF assms])
  have "validateViaCodePointers fsys parseDate ?es = []"
    by (simp add: validateViaCodePointers_concat entryFindings_def emptyEntry_def)
  then show ?thesis using r by blast
qed

text \<open>
  Claim C8 does not hold of the code. The check of the pointers' targets reads a
  \<open>files\<close> list from each top-level entry of CODE_POINTERS.json, and the file the
  generator writes has none: its pointers are nested under \<open>mappings\<close>. The
  document \<^verbatim>\<open>a.md\<close> imports \<^verbatim>\<open>./foo\<close> in a fenced block and the generator records
  the pointer from it to \<^verbatim>\<open>src/foo.ts\<close>. With the source file deleted, the validation
  pass over the file so written finds nothing for the pointer, and its report has no
  error and no warning at all.
\<close>

theorem C8_deleted_target_not_reported:
  "generateCodePointers epochString (Some [''a.md'']) moduleDocs [''src/foo.ts''] fooSource
   = Inr (JObj [(''generated'', JStr epochString), (''total_source_files'', JNum 1),
                (''total_mappings'', JNum 1),
                (''mappings'',
                 JObj [(''a.md'', JObj [(''src/foo.ts'', JArr [JStr ''imports ./foo''])])])])
   \<and> readCodePointers
        (JObj [(''generated'', JStr epochString), (''total_source_files'', JNum 1),
               (''total_mappings'', JNum 1),
               (''mappings'',
                JObj [(''a.md'', JObj [(''src/foo.ts'', JArr [JStr ''imports ./foo''])])])])
      = Some [(''generated'', emptyEntry), (''total_source_files'', emptyEntry),
              (''total_mappings'', emptyEntry), (''mappings'', emptyEntry)]
   \<and> noFileExists ''src/foo.ts'' = None
   \<and> validateViaCodePointers noFileExists parseEpoch
        [(''generated'', emptyEntry), (''total_source_files'', emptyEntry),
         (''total_mappings'', emptyEntry), (''mappings'', emptyEntry)] = []
   \<and> map_sum id (\<lambda>r. (total_checks r, failed r, v_errors r, v_warnings r))
        (validateAccuracy noFileExists parseEpoch
           [(''generated'', emptyEntry), (''total_source_files'', emptyEntry),
            (''total_mappings'', emptyEntry), (''mappings'', emptyEntry)]
           (Some [''a.md'']) moduleDocs)
      = Inr (1, 0, [], [])"
  by code_simp

lemma concat_map_empty: "(\<And>x. x \<in> set xs \<Longrightarrow> h x = []) \<Longrightarrow> concat (map h xs) = []"
  by (induction xs) simp_all

lemma concat_map_single:
  assumes "\<And>x. x \<in> set xs \<Longrightarrow> x \<noteq> a \<Longrightarrow> h x = []" "count_list xs a = 1"
  shows "concat (map h xs) = h a"
  using assms
proof (induction xs)
  case Nil
  then show ?case by simp
next
  case (Cons x xs)
  show ?case
  proof (cases "x = a")
    case True
    then have "count_list xs a = 0" using Cons.prems(2) by simp
    then have "a \<notin> set xs" by (simp add: count_list_0_iff)
    then have "concat (map h xs) = []"
      using Cons.prems(1) by (intro concat_map_empty) auto
    then show ?thesis using True by simp
  next
    case False
    then have "count_list xs a = 1" using Cons.prems(2) by simp
    then have "concat (map h xs) = h a" using Cons.IH Cons.prems(1) by simp
    moreover have "h x = []" using Cons.prems(1) False by simp
    ultimately show ?thesis by simp
  qed
qed

lemma count_list_distinct: "distinct xs \<Longrightarrow> x \<in> set xs \<Longrightarrow> count_list xs x = 1"
  by (induction xs) auto

lemma checkCodeFile_stale:
  assumes "fsys c = Some m" "pe_lastValidated v = Some lv" "lv \<noteq> []" "parseDate lv = Some t" "t < m"
  shows "\<exists>e. checkCodeFile fsys parseDate key v c = [e] \<and> f_type e = stale_documentation \<and>
             f_docFile e = docFileOfKey key \<and> f_section e = sectionOfKey key \<and>
             f_codeFile e = Some c \<and>
             f_severity e = (if m - t > 7 * msPerDay then SevError else SevWarning) \<and>
             f_requiresAIReview e = Some True \<and> \<not> f_autoFixable e \<and>
             f_lastValidated e = Some lv \<and> f_codeModified e = Some m"
proof -
  have p: "(0::rat) < of_int msPerDay" using msPerDay_pos by simp
  have pos: "(0::rat) < of_int (m - t) / of_int msPerDay"
    using assms(5) p by simp
  have "((7::rat) < of_int (m - t) / of_int msPerDay) = ((7::rat) * of_int msPerDay < of_int (m - t))"
    using p by (simp only: pos_less_divide_eq)
  also have "\<dots> = ((of_int (7 * msPerDay) :: rat) < of_int (m - t))"
    by simp
  also have "\<dots> = (7 * msPerDay < m - t)"
    by (simp only: of_int_less_iff)
  finally have sev: "((7::rat) < of_int (m - t) / of_int msPerDay) = (7 * msPerDay < m - t)" .
  show ?thesis
    using assms(1-4) pos sev by (simp add: checkCodeFile_def Let_def)
qed

text \<open>
  Claim C7. For every Pointer (an entry of CODE_POINTERS and one of its files, the file
  standing once in the entry and in no other entry for the same document section) whose
  \<open>lastValidated\<close> is older than the target file's modification time, the
  validation pass emits exactly one stale_documentation finding for that document
  section and file, with severity error when the gap exceeds 7 days and warning
  otherwise, and with requiresAIReview set.
\<close>

theorem C7_stale_pointer_finding:
  assumes keys: "distinct (map fst cps)"
    and entry: "(key, v) \<in> set cps" "pe_files v = Some fs" "count_list fs codeFile = 1"
    and target: "fsys codeFile = Some modTime"
    and validated: "pe_lastValidated v = Some lv" "lv \<noteq> []" "parseDate lv = Some t" "t < modTime"
    and others: "\<forall>(k', v') \<in> set cps. k' \<noteq> key \<longrightarrow>
                   \<not> (docFileOfKey k' = docFileOfKey key \<and> sectionOfKey k' = sectionOfKey key \<and>
                      (\<exists>fs'. pe_files v' = Some fs' \<and> codeFile \<in> set fs'))"
  shows "\<exists>e. filter (\<lambda>x. f_type x = stale_documentation \<and> f_docFile x = docFileOfKey key \<and>
                         f_section x = sectionOfKey key \<and> f_codeFile x = Some codeFile)
                (validateViaCodePointers fsys parseDate cps) = [e]
             \<and> f_severity e = (if modTime - t > 7 * msPerDay then SevError else SevWarning)
             \<and> f_requiresAIReview e = Some True"
proof -
  let ?P = "\<lambda>x. f_type x = stale_documentation \<and> f_docFile x = docFileOfKey key \<and>
                 f_section x = sectionOfKey key \<and> f_codeFile x = Some codeFile"
  let ?g = "\<lambda>kv. filter ?P (entryFindings fsys parseDate kv)"
  obtain e where e: "checkCodeFile fsys parseDate key v codeFile = [e]"
      "f_type e = stale_documentation" "f_docFile e = docFileOfKey key"
      "f_section e = sectionOfKey key" "f_codeFile e = Some codeFile"
      "f_severity e = (if modTime - t > 7 * msPerDay then SevError else SevWarning)"
      "f_requiresAIReview e = Some True"
    using checkCodeFile_stale[where fsys = fsys and c = codeFile and parseDate = parseDate,
        OF target validated] by blast
  have whole: "filter ?P (validateViaCodePointers fsys parseDate cps) = concat (map ?g cps)"
    by (simp add: validateViaCodePointers_concat filter_concat comp_def)
  have other: "?g kv = []" if "kv \<in> set cps" "kv \<noteq> (key, v)" for kv
  proof -
    obtain k' v' where kv: "kv = (k', v')" by (cases kv)
    have ne: "k' \<noteq> key"
    proof
      assume "k' = key"
      then have "v' = v"
        using keys entry(1) that(1) kv by (metis eq_key_imp_eq_value)
      then show False using that(2) kv \<open>k' = key\<close> by simp
    qed
    have "\<not> ?P x" if x: "x \<in> set (entryFindings fsys parseDate kv)" for x
    proof
      assume px: "?P x"
      from x obtain fs' c' where c': "pe_files v' = Some fs'" "c' \<in> set fs'"
          "x \<in> set (checkCodeFile fsys parseDate k' v' c')"
        unfolding kv by (cases "pe_files v'") (auto simp: entryFindings_def)
      from checkCodeFile_fields[OF c'(3)] px
      have "c' = codeFile" "docFileOfKey k' = docFileOfKey key" "sectionOfKey k' = sectionOfKey key"
        by auto
      then show False using others \<open>kv \<in> set cps\<close> kv ne c'(1,2) by auto
    qed
    then show ?thesis by (simp add: filter_empty_conv)
  qed
  have cnt: "count_list cps (key, v) = 1"
    using keys entry(1) by (intro count_list_distinct) (auto simp: distinct_map)
  have own: "?g (key, v) = [e]"
  proof -
    have "?g (key, v) = concat (map (\<lambda>c. filter ?P (checkCodeFile fsys parseDate key v c)) fs)"
      using entry(2) by (simp add: entryFindings_def filter_concat comp_def)
    also have "\<dots> = filter ?P (checkCodeFile fsys parseDate key v codeFile)"
    proof (rule concat_map_single)
      fix c assume c: "c \<in> set fs" "c \<noteq> codeFile"
      have "\<not> ?P x" if "x \<in> set (checkCodeFile fsys parseDate key v c)" for x
        using checkCodeFile_fields[OF that] c(2) by auto
      then show "filter ?P (checkCodeFile fsys parseDate key v c) = []"
        by (simp add: filter_empty_conv)
    next
      show "count_list fs codeFile = 1" by (rule entry(3))
    qed
    also have "\<dots> = [e]" using e by simp
    finally show ?thesis .
  qed
  have "concat (map ?g cps) = ?g (key, v)"
    by (rule concat_map_single) (use other cnt in auto)
  then have "filter ?P (validateViaCodePointers fsys parseDate cps) = [e]"
    using whole own by simp
  then show ?thesis using e(6,7) by blast
qed


text \<open>
  The scenario of the specification: the pointer was validated at the epoch and the
  file was modified ten days later; one finding, with severity error.
\<close>

theorem C7_stale_pointer_finding_witness:
  "(''a.md#overview'', \<lparr>pe_files = Some [''src/foo.ts''], pe_lastValidated = Some epochString\<rparr>)
     \<in> set (fooPointers (Some epochString))
   \<and> fooModifiedAt (10 * msPerDay) ''src/foo.ts'' = Some (10 * msPerDay)
   \<and> parseEpoch epochString = Some 0
   \<and> (\<exists>e. filter (\<lambda>x. f_type x = stale_documentation \<and> f_docFile x = ''a.md'' \<and>
                        f_section x = Some ''overview'' \<and> f_codeFile x = Some ''src/foo.ts'')
               (validateViaCodePointers (fooModifiedAt (10 * msPerDay)) parseEpoch
                  (fooPointers (Some epochString))) = [e]
            \<and> f_severity e = SevError \<and> f_requiresAIReview e = Some True)"
proof -
  let ?v = "\<lparr>pe_files = Some [''src/foo.ts''], pe_lastValidated = Some epochString\<rparr>"
  have keys: "distinct (map fst (fooPointers (Some epochString)))"
    by (simp add: fooPointers_def)
  have h1: "(''a.md#overview'', ?v) \<in> set (fooPointers (Some epochString))"
    by (simp add: fooPointers_def)
  have h2: "pe_files ?v = Some [''src/foo.ts'']" by simp
  have h3: "count_list [''src/foo.ts''] ''src/foo.ts'' = 1" by simp
  have h4: "fooModifiedAt (10 * msPerDay) ''src/foo.ts'' = Some (10 * msPerDay)"
    by (simp add: fooModifiedAt_def)
  have h5: "pe_lastValidated ?v = Some epochString" by simp
  have h6: "epochString \<noteq> []" by (simp add: epochString_def)
  have h7: "parseEpoch epochString = Some 0" by (simp add: parseEpoch_def)
  have h8: "(0::int) < 10 * msPerDay" using msPerDay_pos by simp
  have h9: "\<forall>(k', v') \<in> set (fooPointers (Some epochString)). k' \<noteq> ''a.md#overview'' \<longrightarrow>
              \<not> (docFileOfKey k' = docFileOfKey ''a.md#overview'' \<and>
                 sectionOfKey k' = sectionOfKey ''a.md#overview'' \<and>
                 (\<exists>fs'. pe_files v' = Some fs' \<and> ''src/foo.ts'' \<in> set fs'))"
    by (simp add: fooPointers_def)
  have d: "docFileOfKey ''a.md#overview'' = ''a.md''" by (simp add: docFileOfKey_def)
  have s: "sectionOfKey ''a.md#overview'' = Some ''overview''" by (simp add: sectionOfKey_def)
  have gap: "10 * msPerDay - 0 > 7 * msPerDay" using msPerDay_pos by simp
  show ?thesis
    using C7_stale_pointer_finding[where fsys = "fooModifiedAt (10 * msPerDay)"
        and codeFile = "''src/foo.ts''" and parseDate = parseEpoch,
        OF keys h1 h2 h3 h4 h5 h6 h7 h8 h9] h1 h4 h7 gap
    by (simp add: d s)
qed

section \<open>Coverage\<close>








section \<open>Order and duplicates of references\<close>

lemma setOf_snoc: "setOf (xs @ [x]) = setAdd (setOf xs) x"
  by (simp add: setOf_def)

lemma set_setOf: "set (setOf xs) = set xs"
  by (induction xs rule: rev_induct) (auto simp: setOf_snoc setAdd_def setOf_def)

lemma distinct_setOf: "distinct (setOf xs)"
proof (induction xs rule: rev_induct)
  case Nil
  then show ?case by (simp add: setOf_def)
next
  case (snoc x xs)
  then show ?case by (simp add: setOf_snoc setAdd_def)
qed

lemma groupPointers_snoc: "groupPointers (ps @ [p]) = addPointer (groupPointers ps) p"
  by (simp add: groupPointers_def)

lemma map_fst_update:
  "map fst (AList.update k v al) = (if k \<in> fst ` set al then map fst al else map fst al @ [k])"
  by (induction al) auto

lemma groupPointers_inv:
  "map fst (groupPointers ps) = setOf (map p_file ps) \<and>
   (\<forall>f. map_of (groupPointers ps) f =
         (if f \<in> p_file ` set ps then Some (reasonsFor f ps) else None))"
proof (induction ps rule: rev_induct)
  case Nil
  then show ?case by (simp add: groupPointers_def setOf_def)
next
  case (snoc p ps)
  let ?g = "groupPointers ps"
  let ?f0 = "p_file p"
  let ?rs = "case map_of ?g ?f0 of None \<Rightarrow> [] | Some rs \<Rightarrow> rs"
  have keys: "map fst ?g = setOf (map p_file ps)" using snoc.IH by blast
  have vals: "\<And>f. map_of ?g f = (if f \<in> p_file ` set ps then Some (reasonsFor f ps) else None)"
    using snoc.IH by blast
  have dom: "fst ` set ?g = p_file ` set ps"
  proof -
    have "fst ` set ?g = set (map fst ?g)" by simp
    also have "\<dots> = set (map p_file ps)" by (simp only: keys set_setOf)
    finally show ?thesis by simp
  qed
  have rs: "?rs = reasonsFor ?f0 ps"
  proof (cases "?f0 \<in> p_file ` set ps")
    case True
    then show ?thesis by (simp add: vals)
  next
    case False
    then have "\<And>q. q \<in> set ps \<Longrightarrow> p_file q \<noteq> ?f0"
      by (metis imageI)
    then have "filter (\<lambda>q. p_file q = ?f0) ps = []"
      by (simp add: filter_empty_conv)
    then show ?thesis using False by (simp add: vals reasonsFor_def setOf_def)
  qed
  have new: "setAdd ?rs (p_reason p) = reasonsFor ?f0 (ps @ [p])"
    by (simp add: rs reasonsFor_def setOf_snoc)
  have step: "groupPointers (ps @ [p]) = AList.update ?f0 (setAdd ?rs (p_reason p)) ?g"
    by (simp add: groupPointers_snoc addPointer_def Let_def setAdd_def)
  have k: "map fst (groupPointers (ps @ [p])) = setOf (map p_file (ps @ [p]))"
    by (simp add: step map_fst_update dom setOf_snoc setAdd_def keys set_setOf)
  have v: "map_of (groupPointers (ps @ [p])) f =
         (if f \<in> p_file ` set (ps @ [p]) then Some (reasonsFor f (ps @ [p])) else None)" for f
  proof (cases "f = ?f0")
    case True
    then show ?thesis by (simp add: step update_conv' new)
  next
    case False
    then have "reasonsFor f (ps @ [p]) = reasonsFor f ps"
      by (simp add: reasonsFor_def)
    then show ?thesis using False by (simp add: step update_conv' vals)
  qed
  show ?case using k v by blast
qed

lemma filter_kind:
  "map ref_value (filter (\<lambda>r. ref_type r = Import) (blockReferences b)) = scanAll filePathPattern 0 b"
  "map ref_value (filter (\<lambda>r. ref_type r = Class) (blockReferences b)) = scanAll classPattern 0 b"
  "map ref_value (filter (\<lambda>r. ref_type r = Function) (blockReferences b)) = scanAll functionPattern 0 b"
  by (simp_all add: blockReferences_def filter_map comp_def)

lemma extract_kind:
  assumes "\<And>b. map ref_value (filter (\<lambda>r. ref_type r = k) (blockReferences b)) = g b"
  shows "map ref_value (filter (\<lambda>r. ref_type r = k) (extractCodeReferences content))
         = concat (map g (scanAll codeBlockPattern 0 content))"
  unfolding extractCodeReferences_def
  by (induction "scanAll codeBlockPattern 0 content") (simp_all add: assms map_concat filter_concat comp_def)

text \<open>
  Claim C10, as amended. For every document text, the Reference Extractor returns the
  references of each kind (import path, class name, function name) in the order of
  their matches in the document's fenced blocks, one entry per match, so a repeated
  (kind, value) pair is repeated in the list. Duplicates collapse where the generator
  groups a document's pointers: each source file appears once, in the order of first
  occurrence, with each of its reasons once, in the order of first occurrence.
\<close>

theorem C10_order_and_grouping:
  "map ref_value (filter (\<lambda>r. ref_type r = Import) (extractCodeReferences content))
     = concat (map (scanAll filePathPattern 0) (scanAll codeBlockPattern 0 content))
   \<and> map ref_value (filter (\<lambda>r. ref_type r = Class) (extractCodeReferences content))
     = concat (map (scanAll classPattern 0) (scanAll codeBlockPattern 0 content))
   \<and> map ref_value (filter (\<lambda>r. ref_type r = Function) (extractCodeReferences content))
     = concat (map (scanAll functionPattern 0) (scanAll codeBlockPattern 0 content))
   \<and> map fst (groupPointers ps) = setOf (map p_file ps)
   \<and> distinct (map fst (groupPointers ps))
   \<and> (\<forall>(f, rs) \<in> set (groupPointers ps).
         rs = setOf (map p_reason (filter (\<lambda>p. p_file p = f) ps)) \<and> distinct rs)"
proof -
  have keys: "map fst (groupPointers ps) = setOf (map p_file ps)"
    using groupPointers_inv by blast
  have d: "distinct (map fst (groupPointers ps))"
    by (simp only: keys distinct_setOf)
  have vals: "rs = setOf (map p_reason (filter (\<lambda>p. p_file p = f) ps)) \<and> distinct rs"
    if "(f, rs) \<in> set (groupPointers ps)" for f rs
  proof -
    have "map_of (groupPointers ps) f = Some rs"
      using d that by (rule map_of_is_SomeI)
    moreover have "map_of (groupPointers ps) f =
         (if f \<in> p_file ` set ps then Some (reasonsFor f ps) else None)"
      using groupPointers_inv by blast
    ultimately have "rs = reasonsFor f ps" by (auto split: if_splits)
    then show ?thesis by (simp add: reasonsFor_def distinct_setOf)
  qed
  show ?thesis
    using extract_kind[OF filter_kind(1)] extract_kind[OF filter_kind(2)]
      extract_kind[OF filter_kind(3)] keys d vals
    by blast
qed


text \<open>
  The document that defines \<^verbatim>\<open>Foo\<close> twice: two class references, and one source
  file with each reason once after grouping.
\<close>

theorem C10_order_and_grouping_witness:
  "map ref_value (filter (\<lambda>r. ref_type r = Class) (extractCodeReferences twiceFoo)) = [''Foo'', ''Foo'']
   \<and> map fst (groupPointers
         (matchReferencesToFiles fooSource (extractCodeReferences twiceFoo) [''src/foo.ts'']))
       = [''src/foo.ts'']
   \<and> groupPointers
         (matchReferencesToFiles fooSource (extractCodeReferences twiceFoo) [''src/foo.ts''])
       = [(''src/foo.ts'', [''imports src/foo.ts'', ''defines class Foo''])]"
proof -
  have c: "concat (map (scanAll classPattern 0) (scanAll codeBlockPattern 0 twiceFoo)) = [''Foo'', ''Foo'']"
    by code_simp
  have f: "setOf (map p_file
             (matchReferencesToFiles fooSource (extractCodeReferences twiceFoo) [''src/foo.ts'']))
           = [''src/foo.ts'']"
    by code_simp
  have g: "groupPointers
             (matchReferencesToFiles fooSource (extractCodeReferences twiceFoo) [''src/foo.ts''])
           = [(''src/foo.ts'', [''imports src/foo.ts'', ''defines class Foo''])]"
    by code_simp
  show ?thesis
    using C10_order_and_grouping[of twiceFoo
        "matchReferencesToFiles fooSource (extractCodeReferences twiceFoo) [''src/foo.ts'']"]
    by (simp add: c f g)
qed

text \<open>
  The claim as stated fails on that document: the class reference appears twice, and
  the import, which stands after the first class in the text, comes first.
\<close>

theorem C10_counterexample:
  "extractCodeReferences twiceFoo
     = [\<lparr>ref_type = Import, ref_value = ''src/foo.ts''\<rparr>,
        \<lparr>ref_type = Class, ref_value = ''Foo''\<rparr>,
        \<lparr>ref_type = Class, ref_value = ''Foo''\<rparr>]
   \<and> \<not> distinct (extractCodeReferences twiceFoo)"
proof -
  have e: "extractCodeReferences twiceFoo
     = [\<lparr>ref_type = Import, ref_value = ''src/foo.ts''\<rparr>,
        \<lparr>ref_type = Class, ref_value = ''Foo''\<rparr>,
        \<lparr>ref_type = Class, ref_value = ''Foo''\<rparr>]"
    by code_simp
  show ?thesis by (simp add: e)
qed

section \<open>The accuracy score\<close>

text \<open>
  What the report holds: one check per document, one failure per error, and the score is
  their difference over the number of documents; it is at most 1.
\<close>

lemma validateAccuracy_score:
  assumes "validateAccuracy fsys parseDate cps (Some names) readDoc = Inr r"
  shows "total_checks r = int (length (filter (\<lambda>f. endsWith f ''.md'') names))
         \<and> failed r = int (length (v_errors r))
         \<and> passed r = total_checks r - failed r
         \<and> accuracy_score r
             = (if total_checks r > 0 then of_int (passed r) / of_int (total_checks r) else 1)
         \<and> accuracy_score r \<le> 1"
proof -
  let ?files = "filter (\<lambda>f. endsWith f ''.md'') names"
  let ?r0 = "validateViaCodePointers fsys parseDate cps"
  from assms obtain errs warns checks where
    vd: "validateDocs fsys readDoc
           (filter (\<lambda>e. f_severity e = SevError) ?r0,
            filter (\<lambda>e. f_severity e = SevWarning) ?r0, 0) ?files = Inr (errs, warns, checks)"
    and r: "r = \<lparr>total_checks = checks, passed = checks - int (length errs),
                  failed = int (length errs), warnings_count = int (length warns),
                  accuracy_score =
                    (if checks > 0 then of_int (checks - int (length errs)) / of_int checks else 1),
                  v_errors = errs, v_warnings = warns\<rparr>"
    by (auto simp: validateAccuracy_def Let_def split: sum.splits)
  from validateDocs_result[OF vd] have c: "checks = int (length ?files)" by auto
  have le: "(of_int (checks - int (length errs)) :: rat) / of_int checks \<le> 1" if "checks > 0"
  proof -
    have "(of_int (checks - int (length errs)) :: rat) \<le> of_int checks" by simp
    then show ?thesis using that by (simp add: divide_le_eq_1)
  qed
  show ?thesis using c le by (simp add: r)
qed

text \<open>
  Claim C9 does not hold of the code. The score is \<open>passed / total_checks\<close>, where
  \<open>total_checks\<close> counts the documents but \<open>passed\<close> is \<open>total_checks\<close> minus the
  number of all errors, those of the pointers included. One document that names two
  missing files is one check with two failures: \<open>passed\<close> and the score are \<open>-1\<close>.
\<close>

theorem C9_negative_score_example:
  "map_sum id (\<lambda>r. (total_checks r, failed r, passed r, accuracy_score r))
     (validateAccuracy noFileExists parseEpoch [] (Some [''a.md'']) brokenDocs)
   = Inr (1, 2, - 1, - 1)"
  by code_simp

end
